theory Spec2Isabelle
  imports Complex_Main "HOL-Library.Sublist" "HOL-Library.Word"
begin

section \<open>JavaScript strings and values\<close>

text \<open>
  A JavaScript string is modelled as a \<^typ>\<open>string\<close>, one \<^typ>\<open>char\<close> per code unit, so
  the model covers the strings whose code units are below 256. Something of type
  \<^verbatim>\<open>string | null\<close> or \<^verbatim>\<open>string | undefined\<close> is a \<^typ>\<open>string option\<close>.
\<close>

definition truthy :: "string option \<Rightarrow> bool" where
  \<comment> \<open>\<^verbatim>\<open>!!x\<close> for \<^verbatim>\<open>x: string | null | undefined\<close>: the empty string is falsy.\<close>
  "truthy x = (case x of None \<Rightarrow> False | Some s \<Rightarrow> s \<noteq> [])"

definition orElseNone :: "string option \<Rightarrow> string option" where
  \<comment> \<open>\<^verbatim>\<open>x || undefined\<close> and \<^verbatim>\<open>x || null\<close>.\<close>
  "orElseNone x = (if truthy x then x else None)"

definition isWhiteSpace :: "char \<Rightarrow> bool" where
  \<comment> \<open>White space and line terminators of ECMAScript below code unit 256:
      TAB, LF, VT, FF, CR, SP, NBSP.\<close>
  "isWhiteSpace c = (of_char c \<in> {9, 10, 11, 12, 13, 32, 160 :: nat})"

definition isLineTerminator :: "char \<Rightarrow> bool" where
  \<comment> \<open>LF and CR (U+2028 and U+2029 lie outside the modelled code units).\<close>
  "isLineTerminator c = (of_char c \<in> {10, 13 :: nat})"

definition trim :: "string \<Rightarrow> string" where
  \<comment> \<open>\<^verbatim>\<open>String.prototype.trim\<close>\<close>
  "trim s = rev (dropWhile isWhiteSpace (rev (dropWhile isWhiteSpace s)))"

definition includes' :: "string \<Rightarrow> string \<Rightarrow> bool" where
  \<comment> \<open>\<^verbatim>\<open>s.includes(pat)\<close>\<close>
  "includes' s pat = sublist pat s"

definition startsWith :: "string \<Rightarrow> string \<Rightarrow> bool" where
  \<comment> \<open>\<^verbatim>\<open>s.startsWith(pat)\<close>\<close>
  "startsWith s pat = prefix pat s"

definition at' :: "'a list \<Rightarrow> nat \<Rightarrow> 'a option" where
  \<comment> \<open>\<^verbatim>\<open>xs[i]\<close>: \<^verbatim>\<open>undefined\<close> out of range.\<close>
  "at' xs i = (if i < length xs then Some (xs ! i) else None)"

text \<open>
  \<^verbatim>\<open>s.split(sep)\<close> with a string separator: the separator's occurrences are found from
  left to right, without overlap, and the pieces between them are returned. With the
  empty separator the string is cut into its code units.
\<close>

function split_from :: "string \<Rightarrow> string \<Rightarrow> string \<Rightarrow> string list" where
  "split_from sep acc [] = [rev acc]"
| "split_from sep acc (c # cs) =
     (if sep \<noteq> [] \<and> prefix sep (c # cs)
      then rev acc # split_from sep [] (drop (length sep) (c # cs))
      else split_from sep (c # acc) cs)"
  by pat_completeness auto
termination
  by (relation "measure (\<lambda>(sep, acc, s). length s)") auto

definition split :: "string \<Rightarrow> string \<Rightarrow> string list" where
  "split s sep = (if sep = [] then map (\<lambda>c. [c]) s else split_from sep [] s)"

text \<open>
  \<^verbatim>\<open>s.replace(pat, rep)\<close> with a string pattern replaces the first occurrence only
  (the replacement used by the source holds no \<^verbatim>\<open>$\<close> pattern).
\<close>

fun replace :: "string \<Rightarrow> string \<Rightarrow> string \<Rightarrow> string" where
  "replace [] pat rep = (if pat = [] then rep else [])"
| "replace (c # cs) pat rep =
     (if prefix pat (c # cs) then rep @ drop (length pat) (c # cs)
      else c # replace cs pat rep)"

section \<open>The two-part answer\<close>

definition EXPLANATION_MARKER :: string where
  "EXPLANATION_MARKER = ''[EXPLANATION]''"

definition answerPart :: "string \<Rightarrow> string option" where
  \<comment> \<open>\<^verbatim>\<open>s.split(EXPLANATION_MARKER)[0]\<close>\<close>
  "answerPart s = at' (split s EXPLANATION_MARKER) 0"

definition explanationPart :: "string \<Rightarrow> string option" where
  \<comment> \<open>\<^verbatim>\<open>s.split(EXPLANATION_MARKER)[1]\<close>\<close>
  "explanationPart s = at' (split s EXPLANATION_MARKER) 1"

definition answerOf :: "string \<Rightarrow> string" where
  \<comment> \<open>\<^verbatim>\<open>s.split(EXPLANATION_MARKER)[0]\<close> where the source uses it as a string.
      The array returned by \<^verbatim>\<open>split\<close> always has element 0.\<close>
  "answerOf s = (case answerPart s of Some a \<Rightarrow> a | None \<Rightarrow> [])"

section \<open>The AI response client\<close>

datatype ErrorType = Network | Timeout | Server | Safety | Unknown

fun typeName :: "ErrorType \<Rightarrow> string" where
  "typeName Network = ''network''"
| "typeName Timeout = ''timeout''"
| "typeName Server = ''server''"
| "typeName Safety = ''safety''"
| "typeName Unknown = ''unknown''"

text \<open>
  What the \<^verbatim>\<open>catch\<close> block of \<^verbatim>\<open>solveQuestion\<close> can receive (\<^verbatim>\<open>error: any\<close>), as far
  as the block looks at it: a \<^verbatim>\<open>StudyAIError\<close> with its type and message; \<^verbatim>\<open>null\<close> or
  \<^verbatim>\<open>undefined\<close>; or any other thing, with its \<^verbatim>\<open>message\<close> property, which is absent
  (\<^verbatim>\<open>undefined\<close> or \<^verbatim>\<open>null\<close>), a string, or something else, which has no
  \<^verbatim>\<open>toLowerCase\<close>.
\<close>

datatype messageProp = NoMessage | StringMessage string | OtherMessage

datatype caught =
    CaughtStudyAIError ErrorType string
  | CaughtNullish
  | CaughtValue messageProp

text \<open>
  What \<^verbatim>\<open>solveQuestion\<close> rejects with: a \<^verbatim>\<open>StudyAIError\<close>, or the \<^verbatim>\<open>TypeError\<close> that a
  failed member access in its \<^verbatim>\<open>catch\<close> block raises.
\<close>

datatype thrown = StudyAIError ErrorType string | TypeError

record GenerateContentResponse =
  response_text :: "string option"  \<comment> \<open>\<^verbatim>\<open>response.text\<close>\<close>
  finishReason :: "string option"  \<comment> \<open>\<^verbatim>\<open>response.candidates?.[0]?.finishReason\<close>\<close>

datatype generateContentOutcome = Resolves GenerateContentResponse | Rejects caught

text \<open>
  The request of \<^verbatim>\<open>solveQuestion\<close> is kept as the three arguments it is built from; the
  prompt template, the system instruction and the temperature are not modelled.
\<close>

record GenerateContentRequest =
  req_subject :: string
  req_prompt :: string
  req_image :: "string option"

definition lowerMessage :: "(string \<Rightarrow> string) \<Rightarrow> messageProp \<Rightarrow> string option" where
  \<comment> \<open>\<^verbatim>\<open>error.message?.toLowerCase() || ''\<close>; \<open>None\<close> when the call raises a
      \<^verbatim>\<open>TypeError\<close>.\<close>
  "lowerMessage toLowerCase message =
     (case message of
        NoMessage \<Rightarrow> Some []
      | StringMessage m \<Rightarrow> Some (toLowerCase m)
      | OtherMessage \<Rightarrow> None)"

definition solveQuestion_catch :: "(string \<Rightarrow> string) \<Rightarrow> caught \<Rightarrow> thrown" where
  \<comment> \<open>The \<^verbatim>\<open>catch\<close> block of \<^verbatim>\<open>solveQuestion\<close>: what it throws for what it caught.\<close>
  "solveQuestion_catch toLowerCase error =
     (case error of
        CaughtStudyAIError ty m \<Rightarrow> StudyAIError ty m
      | CaughtNullish \<Rightarrow> TypeError
      | CaughtValue message \<Rightarrow>
          (case lowerMessage toLowerCase message of
             None \<Rightarrow> TypeError
           | Some msg \<Rightarrow>
               if includes' msg ''fetch'' \<or> includes' msg ''network'' \<or>
                  includes' msg ''failed to execute''
               then StudyAIError Network
                 ''Network connection failed. Please check your internet.''
               else if includes' msg ''deadline'' \<or> includes' msg ''timeout'' \<or>
                  includes' msg ''exceeded''
               then StudyAIError Timeout
                 ''The request took too long. The server might be busy.''
               else if includes' msg ''429'' \<or> includes' msg ''quota'' \<or>
                  includes' msg ''too many requests''
               then StudyAIError Server
                 ''AI capacity reached. Please wait a minute and try again.''
               else StudyAIError Server
                 ''The study server encountered an error. Please try again later.''))"

text \<open>
  \<^verbatim>\<open>solveQuestion\<close>, given the platform's \<^verbatim>\<open>toLowerCase\<close>, \<^verbatim>\<open>navigator.onLine\<close> and
  the behaviour of \<^verbatim>\<open>ai.models.generateContent\<close>. It returns what the promise settles
  to (\<open>Inl\<close> when it rejects) and the requests that were issued. Constructing the
  client is taken to succeed.
\<close>

definition solveQuestion ::
  "(string \<Rightarrow> string) \<Rightarrow> bool \<Rightarrow> (GenerateContentRequest \<Rightarrow> generateContentOutcome) \<Rightarrow>
   string \<Rightarrow> string \<Rightarrow> string option \<Rightarrow> (thrown + string) \<times> GenerateContentRequest list" where
  "solveQuestion toLowerCase onLine generateContent prompt subj img =
     (if \<not> onLine
      then (Inl (StudyAIError Network
              ''You appear to be offline. Please check your internet connection.''), [])
      else
        (let req = \<lparr>req_subject = subj, req_prompt = prompt, req_image = img\<rparr> in
         ((case generateContent req of
            Resolves response \<Rightarrow>
              (if \<not> truthy (response_text response)
               then
                 (if finishReason response = Some ''SAFETY''
                  then Inl (solveQuestion_catch toLowerCase (CaughtStudyAIError Safety
                    ''This content was flagged by safety filters. Please try rephrasing your question.''))
                  else Inl (solveQuestion_catch toLowerCase (CaughtStudyAIError Server
                    ''The AI returned an empty response. Please try again.'')))
               else (case response_text response of Some t \<Rightarrow> Inr t | None \<Rightarrow> Inr []))
          | Rejects error \<Rightarrow> Inl (solveQuestion_catch toLowerCase error)),
          [req])))"

definition failureType :: "thrown + string \<Rightarrow> ErrorType option" where
  \<comment> \<open>The \<^verbatim>\<open>type\<close> of the \<^verbatim>\<open>StudyAIError\<close> a promise rejected with.\<close>
  "failureType r = (case r of Inl (StudyAIError ty m) \<Rightarrow> Some ty | _ \<Rightarrow> None)"

text \<open>
  Following the spec's words, the three tests of its classification on the lower-cased
  error description.
\<close>

definition spec_network :: "string \<Rightarrow> bool" where
  "spec_network msg =
     (includes' msg ''fetch'' \<or> includes' msg ''network'' \<or> includes' msg ''failed to execute'')"

definition spec_timeout :: "string \<Rightarrow> bool" where
  "spec_timeout msg =
     (includes' msg ''deadline'' \<or> includes' msg ''timeout'' \<or> includes' msg ''exceeded'')"

definition spec_quota :: "string \<Rightarrow> bool" where
  "spec_quota msg =
     (includes' msg ''429'' \<or> includes' msg ''quota'' \<or> includes' msg ''too many requests'')"

text \<open>Example instances of the platform, for evaluating the model at concrete inputs.\<close>

definition toLowerCaseASCII :: "string \<Rightarrow> string" where
  \<comment> \<open>\<^verbatim>\<open>toLowerCase\<close> on strings of ASCII characters.\<close>
  "toLowerCaseASCII s =
     map (\<lambda>c. if 65 \<le> (of_char c :: nat) \<and> (of_char c :: nat) \<le> 90
              then char_of (of_char c + 32 :: nat) else c) s"

definition answering :: "generateContentOutcome \<Rightarrow> GenerateContentRequest \<Rightarrow> generateContentOutcome" where
  \<comment> \<open>A service that settles every request in the same way.\<close>
  "answering outcome req = outcome"

section \<open>The audio pipeline\<close>

datatype exn = InvalidCharacterError | RangeError | NotSupportedError

text \<open>
  \<^verbatim>\<open>atob\<close> is the forgiving base64 decoding of the platform: ASCII white space is
  removed, one or two padding characters are dropped when the length is a multiple of
  four, a remaining length of 1 modulo 4 or a character outside the alphabet fails, and
  every character gives six bits, the incomplete last byte being dropped.
\<close>

definition b64value :: "char \<Rightarrow> nat option" where
  "b64value c =
     (let n = (of_char c :: nat) in
      if 65 \<le> n \<and> n \<le> 90 then Some (n - 65)
      else if 97 \<le> n \<and> n \<le> 122 then Some (n - 71)
      else if 48 \<le> n \<and> n \<le> 57 then Some (n + 4)
      else if n = 43 then Some 62
      else if n = 47 then Some 63
      else None)"

fun b64bytes :: "nat list \<Rightarrow> string" where
  "b64bytes (a # b # c # d # r) =
     (let n = ((a * 64 + b) * 64 + c) * 64 + d in
      char_of (n div 65536) # char_of (n div 256) # char_of n # b64bytes r)"
| "b64bytes [a, b, c] =
     (let n = (a * 64 + b) * 64 + c in [char_of (n div 1024), char_of (n div 4)])"
| "b64bytes [a, b] = [char_of ((a * 64 + b) div 16)]"
| "b64bytes _ = []"

definition atob :: "string \<Rightarrow> exn + string" where
  "atob s =
     (let d = filter (\<lambda>c. of_char c \<notin> {9, 10, 12, 13, 32 :: nat}) s;
          d' = (if length d mod 4 = 0
                then (if suffix ''=='' d then take (length d - 2) d
                      else if suffix ''='' d then take (length d - 1) d
                      else d)
                else d)
      in if length d' mod 4 = 1 then Inl InvalidCharacterError
         else (case those (map b64value d') of
                 None \<Rightarrow> Inl InvalidCharacterError
               | Some vs \<Rightarrow> Inr (b64bytes vs)))"

text \<open>
  A \<^verbatim>\<open>Uint8Array\<close> is a view of \<open>length'\<close> bytes, from \<open>byteOffset\<close> on, of its
  underlying \<^verbatim>\<open>ArrayBuffer\<close>. \<^verbatim>\<open>new Uint8Array(len)\<close> owns a fresh buffer of \<open>len\<close> bytes.
\<close>

record Uint8Array =
  buffer' :: "8 word list"
  byteOffset :: nat
  length' :: nat

definition ownsBuffer :: "Uint8Array \<Rightarrow> bool" where
  \<comment> \<open>The view is the whole of its buffer.\<close>
  "ownsBuffer data = (byteOffset data = 0 \<and> length' data = length (buffer' data))"

definition decodeBase64 :: "string \<Rightarrow> exn + Uint8Array" where
  \<comment> \<open>The loop copies \<^verbatim>\<open>charCodeAt(i)\<close> of every character into the fresh byte array.\<close>
  "decodeBase64 base64 =
     (case atob base64 of
        Inl e \<Rightarrow> Inl e
      | Inr binaryString \<Rightarrow>
          Inr \<lparr>buffer' = map (\<lambda>c. of_nat (of_char c)) binaryString, byteOffset = 0,
               length' = length binaryString\<rparr>)"

datatype contextState = Suspended | Running

text \<open>
  An \<^verbatim>\<open>AudioContext\<close>: its state, and the ranges of channel counts and sample rates
  that its \<^verbatim>\<open>createBuffer\<close> accepts (Web Audio guarantees at least 1 to 32 channels and
  8000 to 96000 Hz).
\<close>

record AudioContext =
  ctx_state :: contextState
  maxChannels :: nat
  minSampleRate :: nat
  maxSampleRate :: nat

text \<open>
  A sample of a \<^verbatim>\<open>Float32Array\<close> is a rational number, or \<open>None\<close> for \<^verbatim>\<open>NaN\<close>. Every
  quotient \<open>s / 32768\<close> with a 16-bit \<open>s\<close> is a float exactly.
\<close>

type_synonym float32 = "rat option"

type_synonym AudioBuffer = "float32 list list"

definition createBuffer :: "AudioContext \<Rightarrow> nat \<Rightarrow> nat \<Rightarrow> nat \<Rightarrow> exn + AudioBuffer" where
  \<comment> \<open>\<^verbatim>\<open>ctx.createBuffer(numberOfChannels, length, sampleRate)\<close>\<close>
  "createBuffer ctx numberOfChannels len sampleRate =
     (if numberOfChannels = 0 \<or> maxChannels ctx < numberOfChannels \<or> len = 0 \<or>
         sampleRate < minSampleRate ctx \<or> maxSampleRate ctx < sampleRate
      then Inl NotSupportedError
      else Inr (replicate numberOfChannels (replicate len (Some 0))))"

fun int16s :: "8 word list \<Rightarrow> 16 word list" where
  \<comment> \<open>Little-endian pairs of bytes.\<close>
  "int16s (lo # hi # r) = word_cat hi lo # int16s r"
| "int16s _ = []"

definition Int16Array :: "8 word list \<Rightarrow> exn + 16 word list" where
  \<comment> \<open>\<^verbatim>\<open>new Int16Array(arrayBuffer)\<close>, a view of the whole buffer: a byte length that is
      not a multiple of 2 is a \<^verbatim>\<open>RangeError\<close>.\<close>
  "Int16Array bytes = (if odd (length bytes) then Inl RangeError else Inr (int16s bytes))"

definition sampleOf :: "16 word list \<Rightarrow> nat \<Rightarrow> float32" where
  \<comment> \<open>\<^verbatim>\<open>dataInt16[k] / 32768.0\<close>: \<^verbatim>\<open>undefined / 32768.0\<close> is \<^verbatim>\<open>NaN\<close>.\<close>
  "sampleOf dataInt16 k = map_option (\<lambda>w. of_int (sint w) / 32768) (at' dataInt16 k)"

text \<open>
  \<^verbatim>\<open>decodeAudioData\<close>. The samples are read from \<^verbatim>\<open>data.buffer\<close>, the whole underlying
  buffer, whatever part of it \<open>data\<close> views. \<^verbatim>\<open>frameCount\<close> is a quotient of numbers, not
  an integer:
  \<^verbatim>\<open>createBuffer\<close> truncates it, and the inner loop runs while \<^verbatim>\<open>i < frameCount\<close>.
  A write to a typed array beyond its length is ignored, as \<open>xs[i := v]\<close> is.
\<close>

definition decodeAudioData ::
  "Uint8Array \<Rightarrow> AudioContext \<Rightarrow> nat \<Rightarrow> nat \<Rightarrow> exn + AudioBuffer" where
  "decodeAudioData data ctx sampleRate numChannels =
     (case Int16Array (buffer' data) of
        Inl e \<Rightarrow> Inl e
      | Inr dataInt16 \<Rightarrow>
          (let frameCount = (of_nat (length dataInt16) / of_nat numChannels :: rat) in
           case createBuffer ctx numChannels (nat \<lfloor>frameCount\<rfloor>) sampleRate of
             Inl e \<Rightarrow> Inl e
           | Inr buffer \<Rightarrow>
               Inr (fold (\<lambda>channel buffer.
                      buffer[channel :=
                        fold (\<lambda>i channelData.
                                channelData[i := sampleOf dataInt16 (i * numChannels + channel)])
                          [0..<nat \<lceil>frameCount\<rceil>] (buffer ! channel)])
                    [0..<numChannels] buffer)))"

section \<open>The tutor chat component\<close>

datatype Role = User | Model

record ChatMessage =
  id' :: string
  role :: Role
  text' :: string
  image' :: "string option"

text \<open>
  An \<^verbatim>\<open>AudioBufferSourceNode\<close> is named by its index in the list of the nodes created
  so far. It plays from \<^verbatim>\<open>start\<close> until the buffer runs out or \<^verbatim>\<open>stop\<close> is called; the
  platform then dispatches its \<^verbatim>\<open>ended\<close> event, once, at a later turn of the event loop.
\<close>

datatype sourceState = Playing | Stopped | Ended

datatype audioCall = SourceStop nat | SourceStart nat

datatype effect =
    RecognitionStop
  | GenerateSpeech string
  | SolveQuestion string string "string option"
  | FocusInput

record TutorChat =
  subject :: string  \<comment> \<open>the \<^verbatim>\<open>subject\<close> prop\<close>
  messages :: "ChatMessage list"
  input :: string
  image_state :: "string option"  \<comment> \<open>the \<^verbatim>\<open>image\<close> state\<close>
  loading :: bool
  isTTSEnabled :: bool
  isSpeaking :: bool
  isPaused :: bool
  isListening :: bool
  audioContextRef :: "AudioContext option"
  currentSourceRef :: "nat option"
  sources :: "sourceState list"  \<comment> \<open>the source nodes created so far\<close>

function toString :: "nat \<Rightarrow> string" where
  \<comment> \<open>\<^verbatim>\<open>n.toString()\<close> of a non-negative integer: its decimal digits.\<close>
  "toString n =
     (if n < 10 then [char_of (48 + n)]
      else toString (n div 10) @ [char_of (48 + n mod 10)])"
  by pat_completeness auto
termination
  by (relation "measure (\<lambda>n. n)") auto

declare toString.simps [simp del]

definition initial :: "string \<Rightarrow> TutorChat" where
  \<comment> \<open>The state of a freshly mounted component.\<close>
  "initial subj =
     \<lparr>subject = subj, messages = [], input = [], image_state = None, loading = False,
      isTTSEnabled = False, isSpeaking = False, isPaused = False, isListening = False,
      audioContextRef = None, currentSourceRef = None, sources = []\<rparr>"

subsection \<open>Playback\<close>

definition newAudioContext :: AudioContext where
  \<comment> \<open>\<^verbatim>\<open>new AudioContext({ sampleRate: 24000 })\<close>\<close>
  "newAudioContext =
     \<lparr>ctx_state = Suspended, maxChannels = 32, minSampleRate = 8000, maxSampleRate = 96000\<rparr>"

definition stopSource :: "nat \<Rightarrow> sourceState list \<Rightarrow> sourceState list" where
  \<comment> \<open>\<^verbatim>\<open>try { source.stop(); } catch(e) {}\<close>\<close>
  "stopSource k srcs = (if k < length srcs \<and> srcs ! k = Playing then srcs[k := Stopped] else srcs)"

text \<open>
  \<^verbatim>\<open>playAudio\<close>. From the test of \<^verbatim>\<open>currentSourceRef.current\<close> to \<^verbatim>\<open>source.start(0)\<close>
  the source has no \<^verbatim>\<open>await\<close>; what comes before only touches the context and
  \<^verbatim>\<open>isPaused\<close>. The function returns the new state and the calls made on source nodes,
  in order.
\<close>

definition playAudio :: "string \<Rightarrow> TutorChat \<Rightarrow> TutorChat \<times> audioCall list" where
  "playAudio base64Audio s =
     (let ctx0 = (case audioContextRef s of None \<Rightarrow> newAudioContext | Some c \<Rightarrow> c);
          ctx = (if ctx_state ctx0 = Suspended then ctx0\<lparr>ctx_state := Running\<rparr> else ctx0);
          s1 = s\<lparr>audioContextRef := Some ctx, isPaused := False\<rparr>;
          failed = (s1\<lparr>isSpeaking := False, isPaused := False\<rparr>, [])
      in case decodeBase64 base64Audio of
           Inl e \<Rightarrow> failed
         | Inr audioData \<Rightarrow>
             (case decodeAudioData audioData ctx 24000 1 of
                Inl e \<Rightarrow> failed
              | Inr audioBuffer \<Rightarrow>
                  (let srcs = (case currentSourceRef s1 of
                                 None \<Rightarrow> sources s1
                               | Some k \<Rightarrow> stopSource k (sources s1));
                       stops = (case currentSourceRef s1 of
                                  None \<Rightarrow> []
                                | Some k \<Rightarrow> [SourceStop k]);
                       source = length srcs
                   in (s1\<lparr>sources := srcs @ [Playing], isSpeaking := True,
                          currentSourceRef := Some source\<rparr>,
                       stops @ [SourceStart source]))))"

definition onended :: "nat \<Rightarrow> TutorChat \<Rightarrow> TutorChat" where
  \<comment> \<open>The \<^verbatim>\<open>ended\<close> event of source \<open>k\<close>: dispatched once, for a source that was
      started; the handler is the one \<^verbatim>\<open>playAudio\<close> installs.\<close>
  "onended k s =
     (if k < length (sources s) \<and> sources s ! k \<noteq> Ended
      then s\<lparr>sources := (sources s)[k := Ended], isSpeaking := False, isPaused := False,
             currentSourceRef := None\<rparr>
      else s)"

definition live :: "TutorChat \<Rightarrow> nat list" where
  \<comment> \<open>The source nodes that are playing.\<close>
  "live s = filter (\<lambda>k. sources s ! k = Playing) [0..<length (sources s)]"

subsection \<open>Sending\<close>

definition speakText :: "bool \<Rightarrow> string \<Rightarrow> effect list" where
  \<comment> \<open>The first argument is the \<^verbatim>\<open>isTTSEnabled\<close> of the render the caller closes over.\<close>
  "speakText tts txt =
     (if \<not> tts then []
      else [GenerateSpeech (replace txt EXPLANATION_MARKER ''. Next, the explanation: '')])"

text \<open>
  \<^verbatim>\<open>handleSend\<close> up to its \<^verbatim>\<open>await\<close>: \<open>None\<close> when it returns at its guard, else
  the new state and the calls made, in order; the last of them is the call of
  \<^verbatim>\<open>solveQuestion\<close>. \<open>now\<close> is \<^verbatim>\<open>Date.now()\<close>.
\<close>

definition handleSend_start :: "nat \<Rightarrow> TutorChat \<Rightarrow> (TutorChat \<times> effect list) option" where
  "handleSend_start now s =
     (if trim (input s) = [] \<and> \<not> truthy (image_state s) then None
      else
        (let userMessage = \<lparr>id' = toString now, role = User, text' = input s,
                            image' = orElseNone (image_state s)\<rparr>;
             currentInput = input s
         in Some
            (s\<lparr>messages := messages s @ [userMessage], input := [], image_state := None,
               loading := True\<rparr>,
             (if isListening s then [RecognitionStop] else []) @
             (if isTTSEnabled s then speakText (isTTSEnabled s) ''Checking that for you...''
              else []) @
             [SolveQuestion currentInput (subject s) (image' userMessage)])))"

text \<open>
  The continuations of \<^verbatim>\<open>handleSend\<close> after the \<^verbatim>\<open>await\<close>: \<open>tts\<close> is the
  \<^verbatim>\<open>isTTSEnabled\<close> the call closed over, \<open>s\<close> the state at the time the promise
  settles (the updates of \<^verbatim>\<open>messages\<close> are functional updates).
\<close>

definition handleSend_then :: "nat \<Rightarrow> bool \<Rightarrow> string \<Rightarrow> TutorChat \<Rightarrow> TutorChat \<times> effect list" where
  "handleSend_then now tts aiResponse s =
     (let botMessage = \<lparr>id' = toString (now + 1), role = Model, text' = aiResponse,
                         image' = None\<rparr>
      in (s\<lparr>messages := messages s @ [botMessage], loading := False\<rparr>,
          (if tts \<and> aiResponse \<noteq> [] then speakText tts (answerOf aiResponse) else []) @
          [FocusInput]))"

definition errorTag :: "string \<Rightarrow> string \<Rightarrow> string" where
  \<comment> \<open>The template \<^verbatim>\<open>`ERROR_MODE[${errorType}]${errorText}`\<close>\<close>
  "errorTag errorType errorText = ''ERROR_MODE['' @ errorType @ '']'' @ errorText"

definition handleSend_catch :: "nat \<Rightarrow> bool \<Rightarrow> thrown \<Rightarrow> TutorChat \<Rightarrow> TutorChat \<times> effect list" where
  "handleSend_catch now tts error s =
     (let errorText = (case error of
                         StudyAIError ty m \<Rightarrow> m
                       | TypeError \<Rightarrow> ''I'' @ [CHR 0x27] @ ''m so'' @ ''rry, I couldn'' @ [CHR 0x27] @
                           ''t process your request right now.'');
          errorType = (case error of
                         StudyAIError ty m \<Rightarrow> typeName ty
                       | TypeError \<Rightarrow> ''unknown'');
          botMessage = \<lparr>id' = toString (now + 1), role = Model,
                         text' = errorTag errorType errorText,
                         image' = None\<rparr>
      in (s\<lparr>loading := False, messages := messages s @ [botMessage]\<rparr>,
          (if tts then speakText tts errorText else []) @ [FocusInput]))"

text \<open>
  One whole \<^verbatim>\<open>handleSend\<close> with no other event between the call of \<^verbatim>\<open>solveQuestion\<close>
  and its completion. \<open>now\<close> and \<open>now'\<close> are \<^verbatim>\<open>Date.now()\<close> at the start and at the
  completion.
\<close>

definition handleSend ::
  "(string \<Rightarrow> string) \<Rightarrow> bool \<Rightarrow> (GenerateContentRequest \<Rightarrow> generateContentOutcome) \<Rightarrow>
   nat \<Rightarrow> nat \<Rightarrow> TutorChat \<Rightarrow> TutorChat \<times> effect list" where
  "handleSend toLowerCase onLine generateContent now now' s =
     (case handleSend_start now s of
        None \<Rightarrow> (s, [])
      | Some (s1, fx) \<Rightarrow>
          (case fst (solveQuestion toLowerCase onLine generateContent
                       (input s) (subject s) (orElseNone (image_state s))) of
             Inr aiResponse \<Rightarrow>
               (case handleSend_then now' (isTTSEnabled s) aiResponse s1 of
                  (s2, fx2) \<Rightarrow> (s2, fx @ fx2))
           | Inl error \<Rightarrow>
               (case handleSend_catch now' (isTTSEnabled s) error s1 of
                  (s2, fx2) \<Rightarrow> (s2, fx @ fx2))))"

text \<open>The two ways to send: the Ask button and the Enter key in the text field.\<close>

definition askDisabled :: "TutorChat \<Rightarrow> bool" where
  \<comment> \<open>\<^verbatim>\<open>disabled={loading || (!input && !image)}\<close>\<close>
  "askDisabled s = (loading s \<or> (input s = [] \<and> \<not> truthy (image_state s)))"

definition onClickAsk :: "nat \<Rightarrow> TutorChat \<Rightarrow> TutorChat \<times> effect list" where
  \<comment> \<open>A disabled button dispatches no click.\<close>
  "onClickAsk now s =
     (if askDisabled s then (s, [])
      else (case handleSend_start now s of None \<Rightarrow> (s, []) | Some r \<Rightarrow> r))"

definition onKeyPress :: "string \<Rightarrow> nat \<Rightarrow> TutorChat \<Rightarrow> TutorChat \<times> effect list" where
  \<comment> \<open>\<^verbatim>\<open>onKeyPress={(e) => e.key === 'Enter' && handleSend()}\<close>\<close>
  "onKeyPress key now s =
     (if key = ''Enter''
      then (case handleSend_start now s of None \<Rightarrow> (s, []) | Some r \<Rightarrow> r)
      else (s, []))"

subsection \<open>Rendering a message\<close>

text \<open>
  The match of \<^verbatim>\<open>/ERROR_MODE\[(.*?)\](.*)/\<close>. A dot matches any character but a line
  terminator. At a position where \<^verbatim>\<open>ERROR_MODE[\<close> stands, the lazy group takes the
  characters up to the first \<^verbatim>\<open>]\<close>, and fails if a line terminator or the end of the
  string comes first; the greedy group then takes the rest of the line. The pattern is
  not anchored: the leftmost position that matches is taken.
\<close>

fun lazyGroup :: "string \<Rightarrow> (string \<times> string) option" where
  "lazyGroup [] = None"
| "lazyGroup (c # cs) =
     (if c = CHR '']'' then Some ([], cs)
      else if isLineTerminator c then None
      else (case lazyGroup cs of None \<Rightarrow> None | Some (g, r) \<Rightarrow> Some (c # g, r)))"

definition matchHere :: "string \<Rightarrow> (string \<times> string) option" where
  "matchHere s =
     (if prefix ''ERROR_MODE['' s
      then (case lazyGroup (drop (length ''ERROR_MODE['') s) of
              None \<Rightarrow> None
            | Some (g, r) \<Rightarrow> Some (g, takeWhile (\<lambda>c. \<not> isLineTerminator c) r))
      else None)"

fun matchErrorMode :: "string \<Rightarrow> (string \<times> string) option" where
  "matchErrorMode [] = matchHere []"
| "matchErrorMode (c # cs) =
     (case matchHere (c # cs) of Some m \<Rightarrow> Some m | None \<Rightarrow> matchErrorMode cs)"

record rendered =
  isError :: bool
  errorType :: string
  displayContent :: string
  answer :: "string option"
  explanation :: "string option"

definition renderMessage :: "ChatMessage \<Rightarrow> rendered" where
  "renderMessage m =
     (let isError = startsWith (text' m) ''ERROR_MODE['';
          match = (if isError then matchErrorMode (text' m) else None);
          errorType = (case match of Some (g1, g2) \<Rightarrow> g1 | None \<Rightarrow> ''unknown'');
          displayContent = (case match of Some (g1, g2) \<Rightarrow> g2 | None \<Rightarrow> text' m)
      in \<lparr>isError = isError, errorType = errorType, displayContent = displayContent,
          answer = answerPart displayContent,
          explanation = explanationPart displayContent\<rparr>)"

subsection \<open>Retrying\<close>

text \<open>
  The click handler of the button "Try Re-sending", which is rendered for a message
  \<open>m\<close> of the transcript whose rendering is an error.
\<close>

definition retryOnClick :: "ChatMessage \<Rightarrow> TutorChat \<Rightarrow> TutorChat \<times> effect list" where
  "retryOnClick m s =
     (case find (\<lambda>msg. role msg = User) (rev (messages s)) of
        None \<Rightarrow> (s, [])
      | Some lastUserMsg \<Rightarrow>
          (s\<lparr>messages := filter (\<lambda>msg. id' msg \<noteq> id' m) (messages s),
             input := text' lastUserMsg,
             image_state := orElseNone (image' lastUserMsg)\<rparr>, []))"


text \<open>
  Following the spec's words, "the user message that triggered" a model message: the
  user message of the same exchange, that is, the last user message before it in the
  transcript.
\<close>

definition spec_triggeringUserMsg :: "ChatMessage list \<Rightarrow> ChatMessage \<Rightarrow> ChatMessage option" where
  "spec_triggeringUserMsg msgs m =
     find (\<lambda>msg. role msg = User) (rev (takeWhile (\<lambda>msg. msg \<noteq> m) msgs))"

section \<open>Splitting: auxiliary facts\<close>

lemma split_from_no_occurrence:
  "\<not> sublist sep s \<Longrightarrow> split_from sep acc s = [rev acc @ s]"
proof (induction s arbitrary: acc)
  case Nil
  then show ?case by simp
next
  case (Cons c cs)
  from Cons.prems have np: "\<not> prefix sep (c # cs)" and ns: "\<not> sublist sep cs"
    by (auto simp: sublist_Cons_right)
  from Cons.IH [OF ns, of "c # acc"] np show ?case by simp
qed

lemma prefix_across_boundary:
  assumes sep: "sep \<noteq> []" and border: "hd sep \<notin> set (tl sep)"
    and a: "a \<noteq> []" and p: "prefix sep (a @ sep @ b)"
  shows "prefix sep a"
proof (rule ccontr)
  assume n: "\<not> prefix sep a"
  have short: "length a < length sep"
  proof (rule ccontr)
    assume "\<not> length a < length sep"
    then have "length sep \<le> length a" by simp
    with p have "prefix sep a"
      by (metis prefix_length_prefix prefixI)
    with n show False by simp
  qed
  from p obtain r where r: "a @ sep @ b = sep @ r" by (auto simp: prefix_def)
  have "(a @ sep @ b) ! length a = hd sep"
    using sep by (simp add: nth_append hd_conv_nth)
  moreover have "(sep @ r) ! length a = sep ! length a"
    using short by (simp add: nth_append)
  ultimately have "sep ! length a = hd sep" using r by simp
  moreover have "0 < length a" using a by simp
  ultimately have "hd sep \<in> set (tl sep)"
    using short sep
    by (metis Suc_pred in_set_conv_nth length_tl less_diff_conv nth_tl Suc_eq_plus1)
  with border show False by simp
qed

lemma split_from_first_occurrence:
  assumes sep: "sep \<noteq> []" and border: "hd sep \<notin> set (tl sep)"
  shows "\<not> sublist sep a \<Longrightarrow>
    split_from sep acc (a @ sep @ b) = (rev acc @ a) # split_from sep [] b"
proof (induction a arbitrary: acc)
  case Nil
  show ?case
  proof (cases sep)
    case Nil
    with sep show ?thesis by simp
  next
    case (Cons x xs)
    then show ?thesis by simp
  qed
next
  case (Cons c cs)
  from Cons.prems have np: "\<not> prefix sep (c # cs)" and ns: "\<not> sublist sep cs"
    by (auto simp: sublist_Cons_right)
  have "\<not> prefix sep ((c # cs) @ sep @ b)"
    using prefix_across_boundary [OF sep border, of "c # cs" b] np by blast
  with Cons.IH [OF ns, of "c # acc"] show ?case by simp
qed

lemma marker_border:
  "EXPLANATION_MARKER \<noteq> []" "hd EXPLANATION_MARKER \<notin> set (tl EXPLANATION_MARKER)"
  by (simp_all add: EXPLANATION_MARKER_def)

section \<open>Claims about the two-part answer\<close>

text \<open>
  C9. For every string \<open>A + marker + B\<close> in which neither \<open>A\<close> nor \<open>B\<close> contains the
  marker, splitting on the marker gives the answer \<open>A\<close> and the explanation \<open>B\<close>; for
  every string that does not contain the marker, splitting gives the whole string as the
  answer and no explanation (\<^verbatim>\<open>undefined\<close>).
\<close>

theorem split_two_part:
  "(\<not> includes' A EXPLANATION_MARKER \<and> \<not> includes' B EXPLANATION_MARKER \<longrightarrow>
      answerPart (A @ EXPLANATION_MARKER @ B) = Some A \<and>
      explanationPart (A @ EXPLANATION_MARKER @ B) = Some B) \<and>
   (\<not> includes' s EXPLANATION_MARKER \<longrightarrow>
      answerPart s = Some s \<and> explanationPart s = None)"
proof -
  have one: "split s EXPLANATION_MARKER = [s]" if "\<not> includes' s EXPLANATION_MARKER"
    using that split_from_no_occurrence [of EXPLANATION_MARKER s "[]"] marker_border(1)
    by (simp add: split_def includes'_def)
  have two: "split (A @ EXPLANATION_MARKER @ B) EXPLANATION_MARKER = [A, B]"
    if "\<not> includes' A EXPLANATION_MARKER" "\<not> includes' B EXPLANATION_MARKER"
    using that split_from_first_occurrence [OF marker_border, of A "[]" B]
      split_from_no_occurrence [of EXPLANATION_MARKER B "[]"] marker_border(1)
    by (simp add: split_def includes'_def)
  show ?thesis
    using one two by (simp add: answerPart_def explanationPart_def at'_def)
qed

theorem split_two_part_witness:
  "\<not> includes' ''4'' EXPLANATION_MARKER \<and> \<not> includes' ''2 + 2'' EXPLANATION_MARKER \<and>
   answerPart ''4[EXPLANATION]2 + 2'' = Some ''4'' \<and>
   explanationPart ''4[EXPLANATION]2 + 2'' = Some ''2 + 2'' \<and>
   \<not> includes' ''Accra'' EXPLANATION_MARKER \<and>
   answerPart ''Accra'' = Some ''Accra'' \<and> explanationPart ''Accra'' = None"
proof -
  have a: "\<not> includes' ''4'' EXPLANATION_MARKER"
    by (simp add: includes'_def EXPLANATION_MARKER_def sublist_Cons_right)
  have b: "\<not> includes' ''2 + 2'' EXPLANATION_MARKER"
    by (simp add: includes'_def EXPLANATION_MARKER_def sublist_Cons_right)
  have c: "\<not> includes' ''Accra'' EXPLANATION_MARKER"
    by (simp add: includes'_def EXPLANATION_MARKER_def sublist_Cons_right)
  from a b c split_two_part [of "''4''" "''2 + 2''" "''Accra''"]
  show ?thesis by (simp add: EXPLANATION_MARKER_def)
qed

section \<open>Claims about sending\<close>

lemma handleSend_start_empty:
  "trim (input s) = [] \<Longrightarrow> \<not> truthy (image_state s) \<Longrightarrow> handleSend_start now s = None"
  by (simp add: handleSend_start_def)

lemma handleSend_empty_noop:
  "trim (input s) = [] \<Longrightarrow> \<not> truthy (image_state s) \<Longrightarrow>
   handleSend toLowerCase onLine generateContent now now' s = (s, []) \<and>
   onKeyPress key now s = (s, []) \<and> onClickAsk now s = (s, [])"
  by (simp add: handleSend_def onKeyPress_def onClickAsk_def handleSend_start_empty)

lemma onClickAsk_loading_noop: "loading s \<Longrightarrow> onClickAsk now s = (s, [])"
  by (simp add: onClickAsk_def askDisabled_def)

text \<open>
  C1. Sending is a no-op (no user message appended, no call of the AI client, input,
  image and history unchanged) when the trimmed text and the image are both empty, or
  while a prior send is in flight (\<open>loading\<close> is true). The first half holds
  (\<open>handleSend_empty_noop\<close>), and the Ask button is disabled while loading
  (\<open>onClickAsk_loading_noop\<close>); but \<^verbatim>\<open>handleSend\<close> itself does not test \<open>loading\<close>, and
  the Enter key of the text field calls it: with a send in flight and the text
  \<open>hi\<close> typed, pressing Enter appends a user message, clears the input and calls
  \<^verbatim>\<open>solveQuestion\<close> again.
\<close>

theorem enter_key_sends_while_loading:
  "loading ((initial ''ICT'')\<lparr>loading := True, input := ''hi''\<rparr>) \<and>
   onKeyPress ''Enter'' 7 ((initial ''ICT'')\<lparr>loading := True, input := ''hi''\<rparr>) =
     ((initial ''ICT'')\<lparr>loading := True, input := [],
        messages := [\<lparr>id' = toString 7, role = User, text' = ''hi'', image' = None\<rparr>]\<rparr>,
      [SolveQuestion ''hi'' ''ICT'' None])"
  by (simp add: onKeyPress_def handleSend_start_def initial_def trim_def isWhiteSpace_def
      truthy_def orElseNone_def)

text \<open>
  C7. For every send whose AI call succeeds, the transcript grows by exactly two
  messages: the user message, appended before \<^verbatim>\<open>solveQuestion\<close> is called (the call is
  the last thing the synchronous part does), and the model message, appended on
  completion, whatever the state has become by then; the user message precedes the model
  message.
\<close>

theorem send_success_appends_two:
  assumes guard: "trim (input s) \<noteq> [] \<or> truthy (image_state s)"
    and ok: "fst (solveQuestion toLowerCase onLine generateContent
                   (input s) (subject s) (orElseNone (image_state s))) = Inr aiResponse"
  shows "(\<exists>s1 fx. handleSend_start now s =
            Some (s1, fx @ [SolveQuestion (input s) (subject s) (orElseNone (image_state s))]) \<and>
            messages s1 = messages s @
              [\<lparr>id' = toString now, role = User, text' = input s,
                image' = orElseNone (image_state s)\<rparr>]) \<and>
         (\<forall>tts s'. messages (fst (handleSend_then now' tts aiResponse s')) = messages s' @
              [\<lparr>id' = toString (now' + 1), role = Model, text' = aiResponse, image' = None\<rparr>]) \<and>
         messages (fst (handleSend toLowerCase onLine generateContent now now' s)) =
           messages s @
             [\<lparr>id' = toString now, role = User, text' = input s,
               image' = orElseNone (image_state s)\<rparr>,
              \<lparr>id' = toString (now' + 1), role = Model, text' = aiResponse, image' = None\<rparr>] \<and>
         length (messages (fst (handleSend toLowerCase onLine generateContent now now' s))) =
           length (messages s) + 2"
proof -
  let ?u = "\<lparr>id' = toString now, role = User, text' = input s,
              image' = orElseNone (image_state s)\<rparr>"
  let ?fx = "(if isListening s then [RecognitionStop] else []) @
             (if isTTSEnabled s then speakText (isTTSEnabled s) ''Checking that for you...''
              else [])"
  let ?s1 = "s\<lparr>messages := messages s @ [?u], input := [], image_state := None,
               loading := True\<rparr>"
  have start: "handleSend_start now s =
      Some (?s1, ?fx @ [SolveQuestion (input s) (subject s) (orElseNone (image_state s))])"
    using guard by (auto simp: handleSend_start_def Let_def)
  have cont: "messages (fst (handleSend_then now' tts aiResponse s')) = messages s' @
      [\<lparr>id' = toString (now' + 1), role = Model, text' = aiResponse, image' = None\<rparr>]"
    for tts s'
    by (simp add: handleSend_then_def Let_def)
  have whole: "fst (handleSend toLowerCase onLine generateContent now now' s) =
      fst (handleSend_then now' (isTTSEnabled s) aiResponse ?s1)"
    using start ok by (simp add: handleSend_def split: prod.splits)
  have m1: "messages ?s1 = messages s @ [?u]" by simp
  show ?thesis
    using start cont whole m1 by (simp del: append_assoc)
qed

theorem send_success_appends_two_witness:
  "messages (fst (handleSend toLowerCaseASCII True
       (answering (Resolves \<lparr>response_text = Some ''4'', finishReason = None\<rparr>)) 5 9
       ((initial ''ICT'')\<lparr>input := ''2+2?''\<rparr>))) =
     [\<lparr>id' = toString 5, role = User, text' = ''2+2?'', image' = None\<rparr>,
      \<lparr>id' = toString (9 + 1), role = Model, text' = ''4'', image' = None\<rparr>]"
proof -
  let ?s = "(initial ''ICT'')\<lparr>input := ''2+2?''\<rparr>"
  have guard: "trim (input ?s) \<noteq> [] \<or> truthy (image_state ?s)"
    by (simp add: trim_def isWhiteSpace_def)
  have ok: "fst (solveQuestion toLowerCaseASCII True
      (answering (Resolves \<lparr>response_text = Some ''4'', finishReason = None\<rparr>))
      (input ?s) (subject ?s) (orElseNone (image_state ?s))) = Inr ''4''"
    by (simp add: solveQuestion_def answering_def truthy_def Let_def)
  from send_success_appends_two [OF guard ok, of 5 9] guard show ?thesis
    by (simp add: initial_def orElseNone_def truthy_def)
qed

section \<open>Claims about retrying\<close>

lemma filter_other_ids:
  "distinct (map f xs) \<Longrightarrow> m \<in> set xs \<Longrightarrow> filter (\<lambda>x. f x \<noteq> f m) xs = remove1 m xs"
proof (induction xs)
  case Nil
  then show ?case by simp
next
  case (Cons x xs)
  show ?case
  proof (cases "x = m")
    case True
    with Cons.prems have "\<forall>y\<in>set xs. f y \<noteq> f m" by (auto simp: image_iff)
    then have "filter (\<lambda>x. f x \<noteq> f m) xs = xs" by (simp add: filter_id_conv)
    with True show ?thesis by simp
  next
    case False
    with Cons.prems have "m \<in> set xs" "f x \<noteq> f m" by (auto simp: image_iff)
    with Cons show ?thesis using False by simp
  qed
qed

text \<open>
  C2, as stated: retrying an error-tagged message removes exactly that message and
  restores the text and image of the user message that triggered it. This fails when the
  error message is not part of the latest exchange: in the transcript \<open>first\<close>, error,
  \<open>second\<close>, \<open>ok\<close>, the error was triggered by \<open>first\<close>, and retrying it puts \<open>second\<close>
  into the input.
\<close>

theorem retry_triggering_counterexample:
  "isError (renderMessage
     \<lparr>id' = ''101'', role = Model, text' = ''ERROR_MODE[network]offline'', image' = None\<rparr>) \<and>
   spec_triggeringUserMsg
     [\<lparr>id' = ''100'', role = User, text' = ''first'', image' = None\<rparr>,
      \<lparr>id' = ''101'', role = Model, text' = ''ERROR_MODE[network]offline'', image' = None\<rparr>,
      \<lparr>id' = ''200'', role = User, text' = ''second'', image' = None\<rparr>,
      \<lparr>id' = ''201'', role = Model, text' = ''ok'', image' = None\<rparr>]
     \<lparr>id' = ''101'', role = Model, text' = ''ERROR_MODE[network]offline'', image' = None\<rparr>
   = Some \<lparr>id' = ''100'', role = User, text' = ''first'', image' = None\<rparr> \<and>
   input (fst (retryOnClick
     \<lparr>id' = ''101'', role = Model, text' = ''ERROR_MODE[network]offline'', image' = None\<rparr>
     ((initial ''ICT'')\<lparr>messages :=
       [\<lparr>id' = ''100'', role = User, text' = ''first'', image' = None\<rparr>,
        \<lparr>id' = ''101'', role = Model, text' = ''ERROR_MODE[network]offline'', image' = None\<rparr>,
        \<lparr>id' = ''200'', role = User, text' = ''second'', image' = None\<rparr>,
        \<lparr>id' = ''201'', role = Model, text' = ''ok'', image' = None\<rparr>]\<rparr>))) = ''second''"
  by (simp add: retryOnClick_def spec_triggeringUserMsg_def renderMessage_def startsWith_def
      initial_def Let_def)

text \<open>
  C2, amended: in a transcript whose ids are pairwise distinct and that holds a user
  message, retrying a message of the transcript removes exactly that message (the length
  decreases by 1) and puts into the input and the pending image the text and image of
  the last user message of the transcript (no image when that message has none or an
  empty one); nothing is sent.
\<close>

theorem retry_restores_last_user:
  assumes "m \<in> set (messages s)" and "distinct (map id' (messages s))"
    and "find (\<lambda>msg. role msg = User) (rev (messages s)) = Some u"
  shows "retryOnClick m s =
           (s\<lparr>messages := remove1 m (messages s), input := text' u,
              image_state := orElseNone (image' u)\<rparr>, []) \<and>
         length (messages (fst (retryOnClick m s))) + 1 = length (messages s)"
proof -
  have "filter (\<lambda>msg. id' msg \<noteq> id' m) (messages s) = remove1 m (messages s)"
    using assms(1,2) by (rule filter_other_ids [rotated])
  moreover have "length (remove1 m (messages s)) + 1 = length (messages s)"
    using assms(1) by (simp add: length_remove1) (cases "messages s"; simp)
  ultimately show ?thesis using assms(3) by (simp add: retryOnClick_def)
qed

theorem retry_restores_last_user_witness:
  "\<lparr>id' = ''101'', role = Model, text' = ''ERROR_MODE[network]offline'', image' = None\<rparr>
     \<in> set (messages ((initial ''ICT'')\<lparr>messages :=
       [\<lparr>id' = ''100'', role = User, text' = ''first'', image' = Some ''data:,x''\<rparr>,
        \<lparr>id' = ''101'', role = Model, text' = ''ERROR_MODE[network]offline'', image' = None\<rparr>]\<rparr>)) \<and>
   retryOnClick
     \<lparr>id' = ''101'', role = Model, text' = ''ERROR_MODE[network]offline'', image' = None\<rparr>
     ((initial ''ICT'')\<lparr>messages :=
       [\<lparr>id' = ''100'', role = User, text' = ''first'', image' = Some ''data:,x''\<rparr>,
        \<lparr>id' = ''101'', role = Model, text' = ''ERROR_MODE[network]offline'', image' = None\<rparr>]\<rparr>) =
   ((initial ''ICT'')\<lparr>messages :=
       [\<lparr>id' = ''100'', role = User, text' = ''first'', image' = Some ''data:,x''\<rparr>],
      input := ''first'', image_state := Some ''data:,x''\<rparr>, [])"
proof -
  let ?u = "\<lparr>id' = ''100'', role = User, text' = ''first'', image' = Some ''data:,x''\<rparr>"
  let ?e = "\<lparr>id' = ''101'', role = Model, text' = ''ERROR_MODE[network]offline'', image' = None\<rparr>"
  let ?s = "(initial ''ICT'')\<lparr>messages := [?u, ?e]\<rparr>"
  have h1: "?e \<in> set (messages ?s)" by simp
  have h2: "distinct (map id' (messages ?s))" by simp
  have h3: "find (\<lambda>msg. role msg = User) (rev (messages ?s)) = Some ?u" by simp
  from retry_restores_last_user [OF h1 h2 h3] h1 show ?thesis
    by (simp add: orElseNone_def truthy_def)
qed

text \<open>
  C10. If the transcript holds no user message, retrying changes nothing: transcript,
  input and pending image stay as they are.
\<close>

theorem retry_without_user_message:
  "\<forall>msg\<in>set (messages s). role msg \<noteq> User \<Longrightarrow> retryOnClick m s = (s, [])"
proof -
  assume "\<forall>msg\<in>set (messages s). role msg \<noteq> User"
  then have "find (\<lambda>msg. role msg = User) (rev (messages s)) = None"
    by (simp add: find_None_iff)
  then show ?thesis by (simp add: retryOnClick_def)
qed

theorem retry_without_user_message_witness:
  "retryOnClick \<lparr>id' = ''8'', role = Model, text' = ''ERROR_MODE[server]busy'', image' = None\<rparr>
     ((initial ''ICT'')\<lparr>messages :=
        [\<lparr>id' = ''8'', role = Model, text' = ''ERROR_MODE[server]busy'', image' = None\<rparr>]\<rparr>) =
   ((initial ''ICT'')\<lparr>messages :=
        [\<lparr>id' = ''8'', role = Model, text' = ''ERROR_MODE[server]busy'', image' = None\<rparr>]\<rparr>, [])"
proof -
  have h: "\<forall>msg\<in>set (messages ((initial ''ICT'')\<lparr>messages :=
        [\<lparr>id' = ''8'', role = Model, text' = ''ERROR_MODE[server]busy'', image' = None\<rparr>]\<rparr>)).
      role msg \<noteq> User"
    by simp
  from h retry_without_user_message [OF h] show ?thesis by blast
qed

section \<open>Claims about error-tagged messages\<close>

lemma lazyGroup_typeName: "lazyGroup (typeName k @ CHR '']'' # t) = Some (typeName k, t)"
  by (cases k) (simp_all add: isLineTerminator_def)

lemma matchErrorMode_errorTag:
  "matchErrorMode (errorTag (typeName k) t) =
     Some (typeName k, takeWhile (\<lambda>c. \<not> isLineTerminator c) t)"
  by (simp add: errorTag_def matchHere_def lazyGroup_typeName)

lemma render_errorTag:
  "isError (renderMessage (m\<lparr>text' := errorTag (typeName k) t\<rparr>)) \<and>
   errorType (renderMessage (m\<lparr>text' := errorTag (typeName k) t\<rparr>)) = typeName k \<and>
   displayContent (renderMessage (m\<lparr>text' := errorTag (typeName k) t\<rparr>)) =
     takeWhile (\<lambda>c. \<not> isLineTerminator c) t"
proof -
  have "startsWith (errorTag (typeName k) t) ''ERROR_MODE[''"
    by (simp add: startsWith_def errorTag_def)
  then show ?thesis
    by (simp add: renderMessage_def Let_def matchErrorMode_errorTag)
qed

text \<open>
  C4, as stated: decoding \<open>ERROR_MODE[kind]text\<close> gives back \<open>(kind, text)\<close> for every
  kind and every text. The dot of the regular expression does not match a line
  terminator, so a text of two lines is decoded to its first line only.
\<close>

theorem decode_error_tag_counterexample:
  "displayContent (renderMessage \<lparr>id' = ''8'', role = Model,
       text' = errorTag (typeName Server) (''Busy.'' @ [CHR 0x0A] @ ''Try later.''),
       image' = None\<rparr>) = ''Busy.'' \<and>
   ''Busy.'' \<noteq> ''Busy.'' @ [CHR 0x0A] @ ''Try later.''"
  by (simp add: renderMessage_def errorTag_def startsWith_def matchHere_def
      isLineTerminator_def Let_def)

text \<open>
  C4, amended: for every kind in network, timeout, server, safety, unknown and every text,
  the message \<open>ERROR_MODE[kind]text\<close> is rendered as an error of that kind; and if the
  text contains no line terminator, decoding gives back exactly \<open>(kind, text)\<close>. Decoding
  is a function of the stored message: rendering returns a view and writes nothing.
\<close>

theorem decode_error_tag:
  "isError (renderMessage (m\<lparr>text' := errorTag (typeName k) t\<rparr>)) \<and>
   errorType (renderMessage (m\<lparr>text' := errorTag (typeName k) t\<rparr>)) = typeName k \<and>
   ((\<forall>c\<in>set t. \<not> isLineTerminator c) \<longrightarrow>
      displayContent (renderMessage (m\<lparr>text' := errorTag (typeName k) t\<rparr>)) = t)"
  using render_errorTag [where m = m and k = k and t = t] by (simp add: takeWhile_eq_all_conv)

theorem decode_error_tag_witness:
  "errorType (renderMessage \<lparr>id' = ''8'', role = Model,
       text' = ''ERROR_MODE[timeout]The request took too long.'', image' = None\<rparr>) = ''timeout'' \<and>
   displayContent (renderMessage \<lparr>id' = ''8'', role = Model,
       text' = ''ERROR_MODE[timeout]The request took too long.'', image' = None\<rparr>) =
     ''The request took too long.''"
proof -
  have h: "\<forall>c\<in>set ''The request took too long.''. \<not> isLineTerminator c"
    by (simp add: isLineTerminator_def)
  from h decode_error_tag [where m = "\<lparr>id' = ''8'', role = Model, text' = [], image' = None\<rparr>"
      and k = Timeout and t = "''The request took too long.''"]
  show ?thesis by (simp add: errorTag_def)
qed

section \<open>Claims about the AI response client\<close>

lemma split_from_head:
  "\<exists>p ps. split_from sep acc s = p # ps \<and>
     (p = [] \<longleftrightarrow> acc = [] \<and> (s = [] \<or> (sep \<noteq> [] \<and> prefix sep s)))"
proof (induction sep acc s rule: split_from.induct)
  case (1 sep acc)
  then show ?case by simp
next
  case (2 sep acc c cs)
  show ?case
  proof (cases "sep \<noteq> [] \<and> prefix sep (c # cs)")
    case True
    then show ?thesis by simp
  next
    case False
    with "2.IH"(2) show ?thesis by auto
  qed
qed

lemma solveQuestion_Inr:
  "fst (solveQuestion lc onLine gc prompt subj img) = Inr t \<Longrightarrow> t \<noteq> []"
  by (auto simp: solveQuestion_def Let_def truthy_def
      split: if_splits generateContentOutcome.splits option.splits)

text \<open>
  C5, as stated: for every string that \<^verbatim>\<open>solveQuestion\<close> returns, part 0 of its split on
  the marker is a non-empty answer. \<^verbatim>\<open>solveQuestion\<close> only checks that the whole response
  is non-empty: a response that starts with the marker is returned, and its part 0 is
  the empty string.
\<close>

theorem solveQuestion_answer_counterexample:
  "fst (solveQuestion toLowerCaseASCII True
     (answering (Resolves \<lparr>response_text = Some ''[EXPLANATION]Because.'', finishReason = None\<rparr>))
     ''Why?'' ''ICT'' None) = Inr ''[EXPLANATION]Because.'' \<and>
   answerPart ''[EXPLANATION]Because.'' = Some []"
  by (simp add: solveQuestion_def answering_def truthy_def Let_def answerPart_def split_def
      at'_def EXPLANATION_MARKER_def)

text \<open>
  C5, amended: every string that \<^verbatim>\<open>solveQuestion\<close> returns is non-empty; part 0 of its
  split on the marker exists, and is empty exactly when the string starts with the
  marker; it is the whole string when the marker does not occur.
\<close>

theorem solveQuestion_answer:
  assumes "fst (solveQuestion lc onLine gc prompt subj img) = Inr t"
  shows "t \<noteq> [] \<and>
         (\<exists>a. answerPart t = Some a \<and> (a = [] \<longleftrightarrow> startsWith t EXPLANATION_MARKER)) \<and>
         (\<not> includes' t EXPLANATION_MARKER \<longrightarrow> answerPart t = Some t)"
proof -
  have t: "t \<noteq> []" using assms by (rule solveQuestion_Inr)
  obtain p ps where p: "split_from EXPLANATION_MARKER [] t = p # ps"
    and e: "p = [] \<longleftrightarrow> t = [] \<or> (EXPLANATION_MARKER \<noteq> [] \<and> prefix EXPLANATION_MARKER t)"
    using split_from_head [of EXPLANATION_MARKER "[]" t] by auto
  have a: "answerPart t = Some p"
    using p marker_border(1) by (simp add: answerPart_def split_def at'_def)
  have w: "answerPart t = Some t" if "\<not> includes' t EXPLANATION_MARKER"
    using that split_from_no_occurrence [of EXPLANATION_MARKER t "[]"] marker_border(1)
    by (simp add: answerPart_def split_def at'_def includes'_def)
  from t a e w marker_border(1) show ?thesis by (simp add: startsWith_def)
qed

theorem solveQuestion_answer_witness:
  "fst (solveQuestion toLowerCaseASCII True
     (answering (Resolves \<lparr>response_text = Some ''4[EXPLANATION]2 + 2'', finishReason = None\<rparr>))
     ''2 + 2?'' ''Mathematics'' None) = Inr ''4[EXPLANATION]2 + 2'' \<and>
   ''4[EXPLANATION]2 + 2'' \<noteq> [] \<and> answerPart ''4[EXPLANATION]2 + 2'' = Some ''4''"
proof -
  have h: "fst (solveQuestion toLowerCaseASCII True
     (answering (Resolves \<lparr>response_text = Some ''4[EXPLANATION]2 + 2'', finishReason = None\<rparr>))
     ''2 + 2?'' ''Mathematics'' None) = Inr ''4[EXPLANATION]2 + 2''"
    by (simp add: solveQuestion_def answering_def truthy_def Let_def)
  from h solveQuestion_answer [OF h] show ?thesis
    by (simp add: answerPart_def split_def at'_def EXPLANATION_MARKER_def)
qed

lemma solveQuestion_catch_cases:
  "solveQuestion_catch lc (CaughtStudyAIError ty m) = StudyAIError ty m"
  "lowerMessage lc mp = Some msg \<Longrightarrow> spec_network msg \<Longrightarrow>
     \<exists>m. solveQuestion_catch lc (CaughtValue mp) = StudyAIError Network m"
  "lowerMessage lc mp = Some msg \<Longrightarrow> \<not> spec_network msg \<Longrightarrow> spec_timeout msg \<Longrightarrow>
     \<exists>m. solveQuestion_catch lc (CaughtValue mp) = StudyAIError Timeout m"
  "lowerMessage lc mp = Some msg \<Longrightarrow> \<not> spec_network msg \<Longrightarrow> \<not> spec_timeout msg \<Longrightarrow>
     \<exists>m. solveQuestion_catch lc (CaughtValue mp) = StudyAIError Server m"
  by (simp_all add: solveQuestion_catch_def spec_network_def spec_timeout_def)

lemma solveQuestion_catch_TypeError:
  "solveQuestion_catch lc CaughtNullish = TypeError"
  "solveQuestion_catch lc (CaughtValue OtherMessage) = TypeError"
  by (simp_all add: solveQuestion_catch_def lowerMessage_def)

lemma handleSend_catch_messages:
  "messages (fst (handleSend_catch now' tts (StudyAIError ty m) s')) =
     messages s' @
       [\<lparr>id' = toString (now' + 1), role = Model, text' = errorTag (typeName ty) m,
         image' = None\<rparr>]"
  by (simp add: handleSend_catch_def Let_def)

lemma render_appended_error:
  "isError (renderMessage
     \<lparr>id' = i, role = Model, text' = errorTag (typeName ty) m, image' = None\<rparr>) \<and>
   errorType (renderMessage
     \<lparr>id' = i, role = Model, text' = errorTag (typeName ty) m, image' = None\<rparr>) = typeName ty"
  using render_errorTag [where m = "\<lparr>id' = i, role = Model, text' = [], image' = None\<rparr>"
      and k = ty and t = m]
  by simp

text \<open>
  C6, as stated: each rule of the classification holds for every message that contains
  one of its words, and anything else gives server. The rules overlap and the code takes
  the first that applies: \<open>Quota exceeded for model\<close> contains \<open>quota\<close>, yet it also
  contains \<open>exceeded\<close> and is classified timeout, not server. And when
  \<^verbatim>\<open>generateContent\<close> rejects with \<^verbatim>\<open>null\<close>, the \<^verbatim>\<open>catch\<close> block itself raises a
  \<^verbatim>\<open>TypeError\<close>, which is no \<^verbatim>\<open>StudyAIError\<close>: the controller then shows kind unknown,
  not server.
\<close>

theorem solveQuestion_classification_counterexample:
  "spec_quota (toLowerCaseASCII ''Quota exceeded for model'') \<and>
   failureType (fst (solveQuestion toLowerCaseASCII True
       (answering (Rejects (CaughtValue (StringMessage ''Quota exceeded for model''))))
       ''2 + 2?'' ''ICT'' None)) = Some Timeout \<and>
   fst (solveQuestion toLowerCaseASCII True (answering (Rejects CaughtNullish))
       ''2 + 2?'' ''ICT'' None) = Inl TypeError \<and>
   errorType (renderMessage (last (messages (fst (handleSend toLowerCaseASCII True
       (answering (Rejects CaughtNullish)) 5 9
       ((initial ''ICT'')\<lparr>input := ''2 + 2?''\<rparr>)))))) = ''unknown''"
proof -
  let ?s = "(initial ''ICT'')\<lparr>input := ''2 + 2?''\<rparr>"
  have q: "spec_quota (toLowerCaseASCII ''Quota exceeded for model'')"
    by code_simp
  have n: "\<not> spec_network (toLowerCaseASCII ''Quota exceeded for model'')"
    by code_simp
  have t: "spec_timeout (toLowerCaseASCII ''Quota exceeded for model'')"
    by code_simp
  have l: "lowerMessage toLowerCaseASCII (StringMessage ''Quota exceeded for model'') =
      Some (toLowerCaseASCII ''Quota exceeded for model'')"
    by (simp add: lowerMessage_def)
  from solveQuestion_catch_cases(3) [OF l n t]
  have f: "failureType (fst (solveQuestion toLowerCaseASCII True
       (answering (Rejects (CaughtValue (StringMessage ''Quota exceeded for model''))))
       ''2 + 2?'' ''ICT'' None)) = Some Timeout"
    by (auto simp: solveQuestion_def answering_def Let_def failureType_def)
  have e: "fst (solveQuestion toLowerCaseASCII True (answering (Rejects CaughtNullish))
       p sj im) = Inl TypeError" for p sj im
    by (simp add: solveQuestion_def answering_def Let_def solveQuestion_catch_TypeError)
  have g: "handleSend_start 5 ?s \<noteq> None"
    by (simp add: handleSend_start_def trim_def isWhiteSpace_def)
  have u: "errorType (renderMessage (last (messages (fst (handleSend toLowerCaseASCII True
       (answering (Rejects CaughtNullish)) 5 9 ?s))))) = ''unknown''"
    using g
    by (auto simp: handleSend_def e handleSend_catch_def Let_def renderMessage_def
        startsWith_def errorTag_def matchHere_def isLineTerminator_def
        split: option.splits prod.splits)
  from q f e u show ?thesis by simp
qed

text \<open>
  C6, amended: \<^verbatim>\<open>solveQuestion\<close> classifies a failure by the first rule that applies, in
  this order. Offline, it fails with kind network and issues no request. A
  \<^verbatim>\<open>StudyAIError\<close> passes through unchanged. For an error whose message is a string or
  absent, the lower-cased message decides: if it contains fetch, network or failed to
  execute, network; otherwise, if it contains deadline, timeout or exceeded, timeout;
  otherwise server (with or without 429, quota or too many requests). An empty response
  body gives safety when the finish reason is SAFETY and server otherwise. For every
  failure so classified the controller appends exactly one model message, which is
  rendered as an error of that same kind.
\<close>

theorem solveQuestion_classification:
  "(\<not> onLine \<longrightarrow>
      failureType (fst (solveQuestion lc onLine gc prompt subj img)) = Some Network \<and>
      snd (solveQuestion lc onLine gc prompt subj img) = []) \<and>
   (onLine \<and>
    gc \<lparr>req_subject = subj, req_prompt = prompt, req_image = img\<rparr> = Rejects (CaughtValue mp) \<and>
    lowerMessage lc mp = Some msg \<longrightarrow>
      (spec_network msg \<longrightarrow>
         failureType (fst (solveQuestion lc onLine gc prompt subj img)) = Some Network) \<and>
      (\<not> spec_network msg \<and> spec_timeout msg \<longrightarrow>
         failureType (fst (solveQuestion lc onLine gc prompt subj img)) = Some Timeout) \<and>
      (\<not> spec_network msg \<and> \<not> spec_timeout msg \<and> spec_quota msg \<longrightarrow>
         failureType (fst (solveQuestion lc onLine gc prompt subj img)) = Some Server) \<and>
      (\<not> spec_network msg \<and> \<not> spec_timeout msg \<and> \<not> spec_quota msg \<longrightarrow>
         failureType (fst (solveQuestion lc onLine gc prompt subj img)) = Some Server)) \<and>
   (onLine \<and>
    gc \<lparr>req_subject = subj, req_prompt = prompt, req_image = img\<rparr> = Resolves response \<and>
    \<not> truthy (response_text response) \<longrightarrow>
      failureType (fst (solveQuestion lc onLine gc prompt subj img)) =
        Some (if finishReason response = Some ''SAFETY'' then Safety else Server)) \<and>
   (onLine \<and>
    gc \<lparr>req_subject = subj, req_prompt = prompt, req_image = img\<rparr> =
      Rejects (CaughtStudyAIError ty m) \<longrightarrow>
      fst (solveQuestion lc onLine gc prompt subj img) = Inl (StudyAIError ty m)) \<and>
   (\<forall>ty' m' now' tts s'.
      messages (fst (handleSend_catch now' tts (StudyAIError ty' m') s')) =
        messages s' @
          [\<lparr>id' = toString (now' + 1), role = Model, text' = errorTag (typeName ty') m',
            image' = None\<rparr>] \<and>
      isError (renderMessage
        \<lparr>id' = toString (now' + 1), role = Model, text' = errorTag (typeName ty') m',
          image' = None\<rparr>) \<and>
      errorType (renderMessage
        \<lparr>id' = toString (now' + 1), role = Model, text' = errorTag (typeName ty') m',
          image' = None\<rparr>) = typeName ty') \<and>
   ((trim (input s) \<noteq> [] \<or> truthy (image_state s)) \<and>
    fst (solveQuestion lc onLine gc (input s) (subject s) (orElseNone (image_state s))) =
      Inl (StudyAIError ty m) \<longrightarrow>
      messages (fst (handleSend lc onLine gc now now' s)) =
        messages s @
          [\<lparr>id' = toString now, role = User, text' = input s,
            image' = orElseNone (image_state s)\<rparr>,
           \<lparr>id' = toString (now' + 1), role = Model, text' = errorTag (typeName ty) m,
            image' = None\<rparr>])"
proof -
  let ?r = "fst (solveQuestion lc onLine gc prompt subj img)"
  let ?req = "\<lparr>req_subject = subj, req_prompt = prompt, req_image = img\<rparr>"
  have offline: "failureType ?r = Some Network \<and> snd (solveQuestion lc onLine gc prompt subj img) = []"
    if "\<not> onLine"
    using that by (simp add: solveQuestion_def failureType_def)
  have rejected: "?r = Inl (solveQuestion_catch lc e)" if "onLine" "gc ?req = Rejects e" for e
    using that by (simp add: solveQuestion_def Let_def)
  have net: "failureType ?r = Some Network"
    if "onLine" "gc ?req = Rejects (CaughtValue mp)" "lowerMessage lc mp = Some msg"
      "spec_network msg"
    using rejected [OF that(1,2)] solveQuestion_catch_cases(2) [OF that(3,4)]
    by (auto simp: failureType_def)
  have tmo: "failureType ?r = Some Timeout"
    if "onLine" "gc ?req = Rejects (CaughtValue mp)" "lowerMessage lc mp = Some msg"
      "\<not> spec_network msg" "spec_timeout msg"
    using rejected [OF that(1,2)] solveQuestion_catch_cases(3) [OF that(3,4,5)]
    by (auto simp: failureType_def)
  have srv: "failureType ?r = Some Server"
    if "onLine" "gc ?req = Rejects (CaughtValue mp)" "lowerMessage lc mp = Some msg"
      "\<not> spec_network msg" "\<not> spec_timeout msg"
    using rejected [OF that(1,2)] solveQuestion_catch_cases(4) [OF that(3,4,5)]
    by (auto simp: failureType_def)
  have empty: "failureType ?r = Some (if finishReason response = Some ''SAFETY'' then Safety else Server)"
    if "onLine" "gc ?req = Resolves response" "\<not> truthy (response_text response)"
    using that by (simp add: solveQuestion_def Let_def failureType_def solveQuestion_catch_cases(1))
  have pass: "?r = Inl (StudyAIError ty m)" if "onLine" "gc ?req = Rejects (CaughtStudyAIError ty m)"
    using rejected [OF that] by (simp add: solveQuestion_catch_cases(1))
  have appended: "messages (fst (handleSend_catch now' tts (StudyAIError ty' m') s')) =
        messages s' @
          [\<lparr>id' = toString (now' + 1), role = Model, text' = errorTag (typeName ty') m',
            image' = None\<rparr>] \<and>
      isError (renderMessage
        \<lparr>id' = toString (now' + 1), role = Model, text' = errorTag (typeName ty') m',
          image' = None\<rparr>) \<and>
      errorType (renderMessage
        \<lparr>id' = toString (now' + 1), role = Model, text' = errorTag (typeName ty') m',
          image' = None\<rparr>) = typeName ty'" for ty' m' now' tts s'
    using handleSend_catch_messages [of now' tts ty' m' s']
      render_appended_error [of "toString (now' + 1)" ty' m']
    by simp
  have whole: "messages (fst (handleSend lc onLine gc now now' s)) =
        messages s @
          [\<lparr>id' = toString now, role = User, text' = input s,
            image' = orElseNone (image_state s)\<rparr>,
           \<lparr>id' = toString (now' + 1), role = Model, text' = errorTag (typeName ty) m,
            image' = None\<rparr>]"
    if g: "trim (input s) \<noteq> [] \<or> truthy (image_state s)"
      and r: "fst (solveQuestion lc onLine gc (input s) (subject s)
                (orElseNone (image_state s))) = Inl (StudyAIError ty m)"
  proof -
    from g obtain s1 fx where st: "handleSend_start now s = Some (s1, fx)"
      and m1: "messages s1 = messages s @
          [\<lparr>id' = toString now, role = User, text' = input s,
            image' = orElseNone (image_state s)\<rparr>]"
      by (auto simp: handleSend_start_def Let_def)
    have "fst (handleSend lc onLine gc now now' s) =
        fst (handleSend_catch now' (isTTSEnabled s) (StudyAIError ty m) s1)"
      using st r by (simp add: handleSend_def split: prod.splits)
    then show ?thesis
      using handleSend_catch_messages [of now' "isTTSEnabled s" ty m s1] m1 by simp
  qed
  from offline net tmo srv empty pass appended whole show ?thesis by blast
qed

theorem solveQuestion_classification_witness:
  "failureType (fst (solveQuestion toLowerCaseASCII False
       (answering (Rejects (CaughtValue NoMessage))) ''2 + 2?'' ''ICT'' None)) = Some Network \<and>
   snd (solveQuestion toLowerCaseASCII False
       (answering (Rejects (CaughtValue NoMessage))) ''2 + 2?'' ''ICT'' None) = [] \<and>
   \<not> spec_network (toLowerCaseASCII ''Request TIMEOUT'') \<and>
   spec_timeout (toLowerCaseASCII ''Request TIMEOUT'') \<and>
   failureType (fst (solveQuestion toLowerCaseASCII True
       (answering (Rejects (CaughtValue (StringMessage ''Request TIMEOUT''))))
       ''2 + 2?'' ''ICT'' None)) = Some Timeout \<and>
   errorType (renderMessage (last (messages (fst (handleSend toLowerCaseASCII True
       (answering (Rejects (CaughtValue (StringMessage ''Request TIMEOUT'')))) 5 9
       ((initial ''ICT'')\<lparr>input := ''2 + 2?''\<rparr>)))))) = ''timeout''"
proof -
  let ?gc = "answering (Rejects (CaughtValue (StringMessage ''Request TIMEOUT'')))"
  let ?s = "(initial ''ICT'')\<lparr>input := ''2 + 2?''\<rparr>"
  have n: "\<not> spec_network (toLowerCaseASCII ''Request TIMEOUT'')"
    by code_simp
  have t: "spec_timeout (toLowerCaseASCII ''Request TIMEOUT'')"
    by code_simp
  have l: "lowerMessage toLowerCaseASCII (StringMessage ''Request TIMEOUT'') =
      Some (toLowerCaseASCII ''Request TIMEOUT'')"
    by (simp add: lowerMessage_def)
  have g: "trim (input ?s) \<noteq> [] \<or> truthy (image_state ?s)"
    by (simp add: trim_def isWhiteSpace_def)
  have i: "input ?s = ''2 + 2?''" "subject ?s = ''ICT''" "orElseNone (image_state ?s) = None"
    by (simp_all add: initial_def orElseNone_def truthy_def)
  have r: "?gc \<lparr>req_subject = ''ICT'', req_prompt = ''2 + 2?'', req_image = None\<rparr> =
      Rejects (CaughtValue (StringMessage ''Request TIMEOUT''))"
    by (simp add: answering_def)
  note off = solveQuestion_classification [where onLine = False and lc = toLowerCaseASCII
      and gc = "answering (Rejects (CaughtValue NoMessage))" and prompt = "''2 + 2?''"
      and subj = "''ICT''" and img = None]
  have f: "failureType (fst (solveQuestion toLowerCaseASCII True ?gc ''2 + 2?'' ''ICT'' None)) =
      Some Timeout"
    using solveQuestion_classification [where onLine = True and lc = toLowerCaseASCII
      and gc = ?gc and prompt = "''2 + 2?''" and subj = "''ICT''" and img = None
      and mp = "StringMessage ''Request TIMEOUT''"
      and msg = "toLowerCaseASCII ''Request TIMEOUT''"] n t l r
    by blast
  from f obtain m where fm: "fst (solveQuestion toLowerCaseASCII True ?gc ''2 + 2?'' ''ICT'' None) =
      Inl (StudyAIError Timeout m)"
    by (auto simp: failureType_def split: sum.splits thrown.splits)
  have d: "messages (fst (handleSend toLowerCaseASCII True ?gc 5 9 ?s)) =
      messages ?s @
          [\<lparr>id' = toString 5, role = User, text' = input ?s,
            image' = orElseNone (image_state ?s)\<rparr>,
           \<lparr>id' = toString (9 + 1), role = Model, text' = errorTag (typeName Timeout) m,
            image' = None\<rparr>]"
    using solveQuestion_classification [where onLine = True and lc = toLowerCaseASCII
      and gc = ?gc and s = ?s and ty = Timeout and m = m and now = 5 and now' = 9] g fm
    unfolding i by blast
  have e: "errorType (renderMessage
      \<lparr>id' = toString (9 + 1), role = Model, text' = errorTag (typeName Timeout) m,
        image' = None\<rparr>) = typeName Timeout"
    using render_appended_error [of "toString (9 + 1)" Timeout m] by blast
  have "errorType (renderMessage (last (messages (fst (handleSend toLowerCaseASCII True
       ?gc 5 9 ?s))))) = ''timeout''"
    unfolding d using e by simp
  with off n t f show ?thesis by simp
qed

section \<open>Claims about the audio pipeline\<close>

lemma fold_update_length:
  "length (fold (\<lambda>i xs. xs[i := g i (xs ! i)]) [0..<k] xs) = length xs"
  by (induction k) simp_all

lemma fold_update_nth:
  "j < length xs \<Longrightarrow>
   fold (\<lambda>i xs. xs[i := g i (xs ! i)]) [0..<k] xs ! j = (if j < k then g j (xs ! j) else xs ! j)"
proof (induction k arbitrary: j)
  case 0
  then show ?case by simp
next
  case (Suc k)
  show ?case
  proof (cases "j = k")
    case True
    with Suc.prems Suc.IH [of k] show ?thesis
      by (simp add: fold_update_length)
  next
    case False
    with Suc.prems Suc.IH [of j] show ?thesis
      by (simp add: fold_update_length less_Suc_eq)
  qed
qed

lemma length_int16s: "length (int16s bytes) = length bytes div 2"
  by (induction bytes rule: int16s.induct) simp_all

lemma frames_floor: "nat \<lfloor>(of_nat n / of_nat c :: rat)\<rfloor> = n div c"
  by (simp add: floor_divide_of_nat_eq)

lemma frames_ceiling: "n div c \<le> nat \<lceil>(of_nat n / of_nat c :: rat)\<rceil>"
proof -
  have "\<lfloor>(of_nat n / of_nat c :: rat)\<rfloor> \<le> \<lceil>(of_nat n / of_nat c :: rat)\<rceil>"
    by (rule floor_le_ceiling)
  then have "nat \<lfloor>(of_nat n / of_nat c :: rat)\<rfloor> \<le> nat \<lceil>(of_nat n / of_nat c :: rat)\<rceil>"
    by (rule nat_mono)
  then show ?thesis by (simp add: frames_floor)
qed

lemma fill_channel:
  assumes "frames \<le> iters"
  shows "fold (\<lambda>i channelData. channelData[i := f i]) [0..<iters] (replicate frames z) =
         map f [0..<frames]"
proof (rule nth_equalityI)
  show "length (fold (\<lambda>i channelData. channelData[i := f i]) [0..<iters] (replicate frames z)) =
        length (map f [0..<frames])"
    using fold_update_length [of "\<lambda>i _. f i" iters "replicate frames z"] by simp
next
  fix j
  assume "j < length (fold (\<lambda>i channelData. channelData[i := f i]) [0..<iters] (replicate frames z))"
  then have j: "j < frames"
    using fold_update_length [of "\<lambda>i _. f i" iters "replicate frames z"] by simp
  with assms show "fold (\<lambda>i channelData. channelData[i := f i]) [0..<iters] (replicate frames z) ! j =
      map f [0..<frames] ! j"
    using fold_update_nth [of j "replicate frames z" "\<lambda>i _. f i" iters] by simp
qed

lemma fill_buffer:
  "fold (\<lambda>channel buffer. buffer[channel := h channel (buffer ! channel)]) [0..<c]
     (replicate c z) = map (\<lambda>channel. h channel z) [0..<c]"
proof (rule nth_equalityI)
  show "length (fold (\<lambda>channel buffer. buffer[channel := h channel (buffer ! channel)]) [0..<c]
     (replicate c z)) = length (map (\<lambda>channel. h channel z) [0..<c])"
    by (simp add: fold_update_length)
next
  fix j
  assume "j < length (fold (\<lambda>channel buffer. buffer[channel := h channel (buffer ! channel)])
     [0..<c] (replicate c z))"
  then have "j < c" by (simp add: fold_update_length)
  then show "fold (\<lambda>channel buffer. buffer[channel := h channel (buffer ! channel)]) [0..<c]
     (replicate c z) ! j = map (\<lambda>channel. h channel z) [0..<c] ! j"
    using fold_update_nth [of j "replicate c z" h c] by simp
qed

lemma sampleOf_in_range:
  "k < length dataInt16 \<Longrightarrow> sampleOf dataInt16 k = Some (of_int (sint (dataInt16 ! k)) / 32768)"
  by (simp add: sampleOf_def at'_def)

lemma createBuffer_Inr:
  "createBuffer ctx c len rate = Inr zeros \<Longrightarrow>
   0 < c \<and> 0 < len \<and> zeros = replicate c (replicate len (Some 0))"
  by (auto simp: createBuffer_def split: if_splits)

lemma decodeAudioData_odd:
  "odd (length (buffer' data)) \<Longrightarrow> decodeAudioData data ctx rate c = Inl RangeError"
  by (simp add: decodeAudioData_def Int16Array_def)

lemma decodeAudioData_rejected:
  "even (length (buffer' data)) \<Longrightarrow> createBuffer ctx c (length (buffer' data) div 2 div c) rate = Inl e \<Longrightarrow>
   decodeAudioData data ctx rate c = Inl e"
  by (simp add: decodeAudioData_def Int16Array_def Let_def frames_floor length_int16s)

lemma decodeAudioData_even:
  assumes ev: "even (length (buffer' data))"
    and cb: "createBuffer ctx c (length (buffer' data) div 2 div c) rate = Inr zeros"
  shows "decodeAudioData data ctx rate c =
     Inr (map (\<lambda>channel. map (\<lambda>i. Some (of_int (sint (int16s (buffer' data) ! (i * c + channel))) / 32768))
                 [0..<length (buffer' data) div 2 div c]) [0..<c])"
proof -
  let ?d = "int16s (buffer' data)"
  let ?n = "length ?d"
  let ?frames = "?n div c"
  let ?iters = "nat \<lceil>(of_nat ?n / of_nat c :: rat)\<rceil>"
  from createBuffer_Inr [OF cb]
  have c: "0 < c" and z: "zeros = replicate c (replicate ?frames (Some 0))"
    by (simp_all add: length_int16s)
  have inner: "fold (\<lambda>i channelData. channelData[i := sampleOf ?d (i * c + channel)])
      [0..<?iters] (replicate ?frames (Some 0)) =
      map (\<lambda>i. sampleOf ?d (i * c + channel)) [0..<?frames]" for channel
    by (rule fill_channel) (rule frames_ceiling)
  have samples: "map (\<lambda>i. sampleOf ?d (i * c + channel)) [0..<?frames] =
      map (\<lambda>i. Some (of_int (sint (?d ! (i * c + channel))) / 32768)) [0..<?frames]"
    if "channel < c" for channel
  proof (rule map_cong [OF refl])
    fix i
    assume "i \<in> set [0..<?frames]"
    then have "i < ?frames" by simp
    then have "Suc i * c \<le> ?frames * c" by (simp only: mult_le_mono1 Suc_leI)
    also have "\<dots> \<le> ?n" by simp
    finally have "i * c + channel < ?n" using that by simp
    then show "sampleOf ?d (i * c + channel) = Some (of_int (sint (?d ! (i * c + channel))) / 32768)"
      by (rule sampleOf_in_range)
  qed
  have outer: "fold (\<lambda>channel buffer. buffer[channel :=
        fold (\<lambda>i channelData. channelData[i := sampleOf ?d (i * c + channel)])
          [0..<?iters] (buffer ! channel)]) [0..<c] zeros =
      map (\<lambda>channel. fold (\<lambda>i channelData. channelData[i := sampleOf ?d (i * c + channel)])
          [0..<?iters] (replicate ?frames (Some 0))) [0..<c]"
    unfolding z
    by (rule fill_buffer [of "\<lambda>channel cd. fold (\<lambda>i channelData.
        channelData[i := sampleOf ?d (i * c + channel)]) [0..<?iters] cd"])
  have "decodeAudioData data ctx rate c =
      Inr (map (\<lambda>channel. map (\<lambda>i. sampleOf ?d (i * c + channel)) [0..<?frames]) [0..<c])"
    using ev cb outer
    by (simp add: decodeAudioData_def Int16Array_def Let_def frames_floor
        inner [unfolded length_int16s] length_int16s)
  also have "map (\<lambda>channel. map (\<lambda>i. sampleOf ?d (i * c + channel)) [0..<?frames]) [0..<c] =
      map (\<lambda>channel. map (\<lambda>i. Some (of_int (sint (?d ! (i * c + channel))) / 32768))
        [0..<?frames]) [0..<c]"
    by (rule map_cong [OF refl]) (simp add: samples)
  finally show ?thesis by (simp add: length_int16s)
qed


lemma upt_small: "[0..<1] = [0 :: nat]" "[0..<2] = [0, 1 :: nat]"
  by (simp_all add: numeral_2_eq_2)

text \<open>
  C3, as stated: \<^verbatim>\<open>decodeAudioData\<close> fails whenever the byte length is not a multiple of
  \<open>channelCount * 2\<close>. The function has no such check; what fails is the construction of
  the \<^verbatim>\<open>Int16Array\<close>, when the underlying buffer has an odd byte length. Six bytes for two
  channels are three samples: one frame per channel is returned and the third sample is
  dropped. And for one channel, a view of three bytes of a buffer of four bytes does not
  fail either: the two samples of the whole buffer are returned.
\<close>

theorem decodeAudioData_counterexample:
  "\<not> 2 * 2 dvd length' \<lparr>buffer' = [0, 0, 1, 0, 2, 0], byteOffset = 0, length' = 6\<rparr> \<and>
   decodeAudioData \<lparr>buffer' = [0, 0, 1, 0, 2, 0], byteOffset = 0, length' = 6\<rparr>
     newAudioContext 24000 2 = Inr [[Some 0], [Some (1 / 32768)]] \<and>
   \<not> 1 * 2 dvd length' \<lparr>buffer' = [9, 0, 1, 0], byteOffset = 1, length' = 3\<rparr> \<and>
   decodeAudioData \<lparr>buffer' = [9, 0, 1, 0], byteOffset = 1, length' = 3\<rparr>
     newAudioContext 24000 1 = Inr [[Some (9 / 32768), Some (1 / 32768)]]"
proof -
  let ?a = "\<lparr>buffer' = [0, 0, 1, 0, 2, 0], byteOffset = 0, length' = 6\<rparr>"
  let ?b = "\<lparr>buffer' = [9, 0, 1, 0], byteOffset = 1, length' = 3\<rparr>"
  have w: "sint (word_cat (0 :: 8 word) (0 :: 8 word) :: 16 word) = 0"
    "sint (word_cat (0 :: 8 word) (1 :: 8 word) :: 16 word) = 1"
    "sint (word_cat (0 :: 8 word) (9 :: 8 word) :: 16 word) = 9"
    by (simp_all add: word_cat_eq push_bit_eq_mult)
  have na: "length (buffer' ?a) div 2 div 2 = 1" by simp
  have cba: "createBuffer newAudioContext 2 (length (buffer' ?a) div 2 div 2) 24000 =
      Inr [[Some 0], [Some 0]]"
    unfolding na by (simp add: createBuffer_def newAudioContext_def numeral_2_eq_2)
  have eva: "even (length (buffer' ?a))" by simp
  have "decodeAudioData ?a newAudioContext 24000 2 =
      Inr (map (\<lambda>channel. map (\<lambda>i. Some (of_int (sint (int16s (buffer' ?a) !
              (i * 2 + channel))) / 32768)) [0..<1]) [0..<2])"
    using decodeAudioData_even [OF eva cba] unfolding na .
  also have "\<dots> = Inr [[Some 0], [Some (1 / 32768)]]"
    unfolding upt_small by (simp add: w del: of_int_sint)
  finally have ra: "decodeAudioData ?a newAudioContext 24000 2 =
      Inr [[Some 0], [Some (1 / 32768)]]" .
  have nb: "length (buffer' ?b) div 2 div 1 = 2" by simp
  have cbb: "createBuffer newAudioContext 1 (length (buffer' ?b) div 2 div 1) 24000 =
      Inr [[Some 0, Some 0]]"
    unfolding nb by (simp add: createBuffer_def newAudioContext_def numeral_2_eq_2)
  have evb: "even (length (buffer' ?b))" by simp
  have "decodeAudioData ?b newAudioContext 24000 1 =
      Inr (map (\<lambda>channel. map (\<lambda>i. Some (of_int (sint (int16s (buffer' ?b) !
              (i * 1 + channel))) / 32768)) [0..<2]) [0..<1])"
    using decodeAudioData_even [OF evb cbb] unfolding nb .
  also have "\<dots> = Inr [[Some (9 / 32768), Some (1 / 32768)]]"
    unfolding upt_small by (simp add: w del: of_int_sint)
  finally have rb: "decodeAudioData ?b newAudioContext 24000 1 =
      Inr [[Some (9 / 32768), Some (1 / 32768)]]" .
  have da: "\<not> 2 * 2 dvd length' ?a" by simp
  have db: "\<not> 1 * 2 dvd length' ?b" by simp
  from da ra db rb show ?thesis by blast
qed

text \<open>
  C3, amended: \<^verbatim>\<open>decodeAudioData\<close> fails (with a \<^verbatim>\<open>RangeError\<close>) whenever the underlying
  buffer of the byte array has an odd byte length. For a byte array that owns its buffer,
  as \<^verbatim>\<open>decodeBase64\<close> makes them, and one channel, as \<^verbatim>\<open>playAudio\<close> asks for, that is
  whenever the byte length is not a multiple of \<open>channelCount * 2\<close>. When the buffer has
  an even byte length, \<^verbatim>\<open>createBuffer\<close> is asked for the number of samples of the
  buffer divided by the number of channels, rounded down, frames; the function fails
  with the error of \<^verbatim>\<open>createBuffer\<close> if that is refused, and otherwise returns that many
  frames per channel, frame \<open>i\<close> of channel \<open>c\<close> being sample \<open>i * channelCount + c\<close> of
  the buffer divided by 32768.
\<close>

theorem decodeAudioData_result:
  "(odd (length (buffer' data)) \<longrightarrow>
      decodeAudioData data ctx sampleRate numChannels = Inl RangeError) \<and>
   (ownsBuffer data \<and> numChannels = 1 \<and> \<not> numChannels * 2 dvd length' data \<longrightarrow>
      decodeAudioData data ctx sampleRate numChannels = Inl RangeError) \<and>
   (even (length (buffer' data)) \<and>
    createBuffer ctx numChannels (length (buffer' data) div 2 div numChannels) sampleRate =
      Inl e \<longrightarrow>
      decodeAudioData data ctx sampleRate numChannels = Inl e) \<and>
   (even (length (buffer' data)) \<and>
    createBuffer ctx numChannels (length (buffer' data) div 2 div numChannels) sampleRate =
      Inr zeros \<longrightarrow>
      decodeAudioData data ctx sampleRate numChannels =
        Inr (map (\<lambda>channel.
               map (\<lambda>i. Some (of_int (sint (int16s (buffer' data) !
                                   (i * numChannels + channel))) / 32768))
                 [0..<length (buffer' data) div 2 div numChannels])
             [0..<numChannels]))"
proof (intro conjI impI)
  assume "odd (length (buffer' data))"
  then show "decodeAudioData data ctx sampleRate numChannels = Inl RangeError"
    by (rule decodeAudioData_odd)
next
  assume "ownsBuffer data \<and> numChannels = 1 \<and> \<not> numChannels * 2 dvd length' data"
  then have "odd (length (buffer' data))" by (auto simp: ownsBuffer_def)
  then show "decodeAudioData data ctx sampleRate numChannels = Inl RangeError"
    by (rule decodeAudioData_odd)
next
  assume "even (length (buffer' data)) \<and>
    createBuffer ctx numChannels (length (buffer' data) div 2 div numChannels) sampleRate =
      Inl e"
  then show "decodeAudioData data ctx sampleRate numChannels = Inl e"
    by (simp add: decodeAudioData_rejected)
next
  assume "even (length (buffer' data)) \<and>
    createBuffer ctx numChannels (length (buffer' data) div 2 div numChannels) sampleRate =
      Inr zeros"
  then show "decodeAudioData data ctx sampleRate numChannels =
        Inr (map (\<lambda>channel.
               map (\<lambda>i. Some (of_int (sint (int16s (buffer' data) !
                                   (i * numChannels + channel))) / 32768))
                 [0..<length (buffer' data) div 2 div numChannels])
             [0..<numChannels])"
    using decodeAudioData_even [of data ctx numChannels sampleRate zeros] by blast
qed

theorem decodeAudioData_result_witness:
  "odd (length (buffer' \<lparr>buffer' = [0, 0, 1], byteOffset = 0, length' = 3\<rparr>)) \<and>
   decodeAudioData \<lparr>buffer' = [0, 0, 1], byteOffset = 0, length' = 3\<rparr>
     newAudioContext 24000 1 = Inl RangeError \<and>
   even (length (buffer' \<lparr>buffer' = [0, 128, 255, 255], byteOffset = 0, length' = 4\<rparr>)) \<and>
   createBuffer newAudioContext 1
     (length (buffer' \<lparr>buffer' = [0, 128, 255, 255], byteOffset = 0, length' = 4\<rparr>)
        div 2 div 1) 24000 = Inr [[Some 0, Some 0]] \<and>
   decodeAudioData \<lparr>buffer' = [0, 128, 255, 255], byteOffset = 0, length' = 4\<rparr>
     newAudioContext 24000 1 = Inr [[Some (- 1), Some (- (1 / 32768))]]"
proof -
  let ?o = "\<lparr>buffer' = [0, 0, 1], byteOffset = 0, length' = 3\<rparr>"
  let ?d = "\<lparr>buffer' = [0, 128, 255, 255], byteOffset = 0, length' = 4\<rparr>"
  have o: "odd (length (buffer' ?o))" by simp
  have e: "even (length (buffer' ?d))" by simp
  have n: "length (buffer' ?d) div 2 div 1 = 2" by simp
  have cb: "createBuffer newAudioContext 1 (length (buffer' ?d) div 2 div 1) 24000 =
      Inr [[Some 0, Some 0]]"
    unfolding n by (simp add: createBuffer_def newAudioContext_def numeral_2_eq_2)
  have w: "sint (word_cat (128 :: 8 word) (0 :: 8 word) :: 16 word) = - 32768"
    "sint (word_cat (255 :: 8 word) (255 :: 8 word) :: 16 word) = - 1"
    by (simp_all add: word_cat_eq push_bit_eq_mult)
  from decodeAudioData_result [where data = ?o and ctx = newAudioContext
      and sampleRate = 24000 and numChannels = 1] o
  have r1: "decodeAudioData ?o newAudioContext 24000 1 = Inl RangeError" by blast
  from decodeAudioData_result [where data = ?d and ctx = newAudioContext
      and sampleRate = 24000 and numChannels = 1 and zeros = "[[Some 0, Some 0]]"] e cb
  have r2: "decodeAudioData ?d newAudioContext 24000 1 =
      Inr (map (\<lambda>channel.
               map (\<lambda>i. Some (of_int (sint (int16s (buffer' ?d) ! (i * 1 + channel))) / 32768))
                 [0..<length (buffer' ?d) div 2 div 1])
             [0..<1])"
    by blast
  have r3: "decodeAudioData ?d newAudioContext 24000 1 =
     Inr [[Some (- 1), Some (- (1 / 32768))]]"
    unfolding r2 n upt_small by (simp add: w del: of_int_sint)
  from o e cb r1 r3 show ?thesis by blast
qed

lemma decodeBase64_example:
  "decodeBase64 ''AAA='' = Inr \<lparr>buffer' = [0, 0], byteOffset = 0, length' = 2\<rparr>"
  by code_simp

lemma decodeAudioData_example:
  assumes "1 \<le> maxChannels ctx" "minSampleRate ctx \<le> 24000" "24000 \<le> maxSampleRate ctx"
  shows "decodeAudioData \<lparr>buffer' = [0, 0], byteOffset = 0, length' = 2\<rparr> ctx 24000 (Suc 0) =
      Inr [[Some 0]]"
proof -
  let ?d = "\<lparr>buffer' = [0, 0], byteOffset = 0, length' = 2\<rparr>"
  have cb: "createBuffer ctx (Suc 0) (length (buffer' ?d) div 2 div Suc 0) 24000 =
      Inr [[Some 0]]"
    using assms by (simp add: createBuffer_def)
  have ev: "even (length (buffer' ?d))" by simp
  have w: "sint (word_cat (0 :: 8 word) (0 :: 8 word) :: 16 word) = 0"
    by (simp add: word_cat_eq)
  from decodeAudioData_even [OF ev cb] show ?thesis
    by (simp add: w del: of_int_sint)
qed

lemma playAudio_example:
  assumes "audioContextRef s = None \<or>
     audioContextRef s = Some (newAudioContext\<lparr>ctx_state := Running\<rparr>)"
  shows "playAudio ''AAA='' s =
     (s\<lparr>audioContextRef := Some (newAudioContext\<lparr>ctx_state := Running\<rparr>), isPaused := False,
        sources := (case currentSourceRef s of None \<Rightarrow> sources s
                    | Some k \<Rightarrow> stopSource k (sources s)) @ [Playing],
        isSpeaking := True,
        currentSourceRef := Some (length (sources s))\<rparr>,
      (case currentSourceRef s of None \<Rightarrow> [] | Some k \<Rightarrow> [SourceStop k]) @
      [SourceStart (length (sources s))])"
proof -
  let ?ctx = "newAudioContext\<lparr>ctx_state := Running\<rparr>"
  have d: "decodeAudioData \<lparr>buffer' = [0, 0], byteOffset = 0, length' = 2\<rparr> ?ctx 24000
      (Suc 0) = Inr [[Some 0]]"
    by (rule decodeAudioData_example) (simp_all add: newAudioContext_def)
  have n: "ctx_state newAudioContext = Suspended"
    by (simp add: newAudioContext_def)
  have l: "length (stopSource k xs) = length xs" for k xs
    by (simp add: stopSource_def)
  from assms show ?thesis
  proof
    assume "audioContextRef s = None"
    then show ?thesis
      by (simp add: playAudio_def Let_def decodeBase64_example d n l split: option.splits)
  next
    assume "audioContextRef s = Some ?ctx"
    then show ?thesis
      by (simp add: playAudio_def Let_def decodeBase64_example d n l split: option.splits)
  qed
qed

lemma playAudio_started:
  assumes "snd (playAudio base64Audio s) \<noteq> []"
  shows "snd (playAudio base64Audio s) =
           (case currentSourceRef s of None \<Rightarrow> [] | Some k \<Rightarrow> [SourceStop k]) @
           [SourceStart (length (sources s))] \<and>
         sources (fst (playAudio base64Audio s)) =
           (case currentSourceRef s of None \<Rightarrow> sources s
            | Some k \<Rightarrow> stopSource k (sources s)) @ [Playing] \<and>
         currentSourceRef (fst (playAudio base64Audio s)) = Some (length (sources s))"
proof -
  define ctx where "ctx =
    (let ctx0 = (case audioContextRef s of None \<Rightarrow> newAudioContext | Some c \<Rightarrow> c)
     in if ctx_state ctx0 = Suspended then ctx0\<lparr>ctx_state := Running\<rparr> else ctx0)"
  define ok where "ok =
    (s\<lparr>audioContextRef := Some ctx, isPaused := False,
       sources := (case currentSourceRef s of None \<Rightarrow> sources s
                   | Some k \<Rightarrow> stopSource k (sources s)) @ [Playing],
       isSpeaking := True, currentSourceRef := Some (length (sources s))\<rparr>,
     (case currentSourceRef s of None \<Rightarrow> [] | Some k \<Rightarrow> [SourceStop k]) @
     [SourceStart (length (sources s))])"
  define failed where "failed =
    (s\<lparr>audioContextRef := Some ctx, isPaused := False, isSpeaking := False\<rparr>,
     [] :: audioCall list)"
  have l: "length (stopSource k xs) = length xs" for k xs
    by (simp add: stopSource_def)
  have unfolded: "playAudio base64Audio s =
      (case decodeBase64 base64Audio of
         Inl e \<Rightarrow> failed
       | Inr audioData \<Rightarrow>
           (case decodeAudioData audioData ctx 24000 1 of
              Inl e \<Rightarrow> failed
            | Inr audioBuffer \<Rightarrow> ok))"
    by (simp add: playAudio_def ctx_def ok_def failed_def Let_def l
        split: sum.splits option.splits)
  have "playAudio base64Audio s = ok"
  proof (rule ccontr)
    assume "playAudio base64Audio s \<noteq> ok"
    with unfolded have "playAudio base64Audio s = failed"
      by (auto split: sum.splits)
    with assms show False by (simp add: failed_def)
  qed
  then show ?thesis by (simp add: ok_def)
qed

lemma playAudio_replaces_current:
  assumes started: "snd (playAudio base64Audio s) \<noteq> []"
    and cur: "currentSourceRef s = Some k"
    and only: "set (live s) \<subseteq> {k}"
  shows "snd (playAudio base64Audio s) = [SourceStop k, SourceStart (length (sources s))] \<and>
         live (fst (playAudio base64Audio s)) = [length (sources s)]"
proof -
  let ?n = "length (sources s)"
  from playAudio_started [OF started] cur
  have calls: "snd (playAudio base64Audio s) = [SourceStop k, SourceStart ?n]"
    and srcs: "sources (fst (playAudio base64Audio s)) = stopSource k (sources s) @ [Playing]"
    by simp_all
  have len: "length (stopSource k (sources s)) = ?n"
    by (simp add: stopSource_def)
  have quiet: "stopSource k (sources s) ! i \<noteq> Playing" if "i < ?n" for i
  proof (cases "sources s ! i = Playing")
    case True
    with that have "i \<in> set (live s)" by (simp add: live_def)
    with only have "i = k" by auto
    with True that show ?thesis by (simp add: stopSource_def)
  next
    case False
    with that show ?thesis by (auto simp: stopSource_def nth_list_update)
  qed
  have "filter (\<lambda>i. (stopSource k (sources s) @ [Playing]) ! i = Playing) [0..<?n] = []"
    using quiet len by (auto simp: filter_empty_conv nth_append)
  then have "live (fst (playAudio base64Audio s)) = [?n]"
    using len by (simp add: live_def srcs nth_append)
  with calls show ?thesis by simp
qed

text \<open>
  C8. At most one playback handle is live at any time: starting playback while another
  is active stops the prior handle before the new source starts, and exactly one active
  handle remains. One call of \<^verbatim>\<open>playAudio\<close> does that when \<^verbatim>\<open>currentSourceRef\<close> holds the
  source that is playing (\<open>playAudio_replaces_current\<close>). But the \<^verbatim>\<open>ended\<close> handler of
  every source clears \<^verbatim>\<open>currentSourceRef\<close>, whichever source it holds by then, and a source
  that \<^verbatim>\<open>playAudio\<close> stopped gets its \<^verbatim>\<open>ended\<close> event after the next source has started.
  Play, play again, let the \<^verbatim>\<open>ended\<close> event of the first source arrive, play a third
  time: the reference is empty, so the second source is not stopped, and the second and
  the third source play together.
\<close>

theorem overlapping_playback:
  "playAudio ''AAA='' (fst (playAudio ''AAA='' (initial ''ICT''))) =
     ((initial ''ICT'')\<lparr>audioContextRef := Some (newAudioContext\<lparr>ctx_state := Running\<rparr>),
        isSpeaking := True, currentSourceRef := Some 1, sources := [Stopped, Playing]\<rparr>,
      [SourceStop 0, SourceStart 1]) \<and>
   onended 0 (fst (playAudio ''AAA='' (fst (playAudio ''AAA='' (initial ''ICT''))))) =
     (initial ''ICT'')\<lparr>audioContextRef := Some (newAudioContext\<lparr>ctx_state := Running\<rparr>),
        isSpeaking := False, currentSourceRef := None, sources := [Ended, Playing]\<rparr> \<and>
   playAudio ''AAA='' (onended 0
       (fst (playAudio ''AAA='' (fst (playAudio ''AAA='' (initial ''ICT'')))))) =
     ((initial ''ICT'')\<lparr>audioContextRef := Some (newAudioContext\<lparr>ctx_state := Running\<rparr>),
        isSpeaking := True, currentSourceRef := Some 2, sources := [Ended, Playing, Playing]\<rparr>,
      [SourceStart 2]) \<and>
   live (fst (playAudio ''AAA='' (onended 0
       (fst (playAudio ''AAA='' (fst (playAudio ''AAA='' (initial ''ICT''))))))))  = [1, 2]"
proof -
  let ?ctx = "newAudioContext\<lparr>ctx_state := Running\<rparr>"
  let ?s1 = "(initial ''ICT'')\<lparr>audioContextRef := Some ?ctx,
        isSpeaking := True, currentSourceRef := Some 0, sources := [Playing]\<rparr>"
  let ?s2 = "(initial ''ICT'')\<lparr>audioContextRef := Some ?ctx,
        isSpeaking := True, currentSourceRef := Some 1, sources := [Stopped, Playing]\<rparr>"
  let ?s3 = "(initial ''ICT'')\<lparr>audioContextRef := Some ?ctx,
        isSpeaking := False, currentSourceRef := None, sources := [Ended, Playing]\<rparr>"
  let ?s4 = "(initial ''ICT'')\<lparr>audioContextRef := Some ?ctx,
        isSpeaking := True, currentSourceRef := Some 2, sources := [Ended, Playing, Playing]\<rparr>"
  have p1: "playAudio ''AAA='' (initial ''ICT'') = (?s1, [SourceStart 0])"
    using playAudio_example [of "initial ''ICT''"] by (simp add: initial_def)
  have p2: "playAudio ''AAA='' ?s1 = (?s2, [SourceStop 0, SourceStart 1])"
    using playAudio_example [of ?s1] by (simp add: initial_def stopSource_def)
  have e3: "onended 0 ?s2 = ?s3"
    by (simp add: onended_def initial_def)
  have p4: "playAudio ''AAA='' ?s3 = (?s4, [SourceStart 2])"
    using playAudio_example [of ?s3] by (simp add: initial_def)
  have l4: "live ?s4 = [1, 2]"
    by (simp add: live_def initial_def upt_rec [of 0] upt_rec [of 1] upt_rec [of 2]
        upt_rec [of 3])
  show ?thesis
    unfolding p1 fst_conv p2 e3 p4 l4 by simp
qed

end
